theory Spec2Isabelle
  imports Complex_Main "HOL-Library.Word" "HOL-Library.Sublist"
begin

section \<open>JavaScript numbers\<close>

text \<open>
  The values \<open>width\<close>, \<open>height\<close> and \<open>ratio\<close> of \<open>getVideoAspectRatio\<close> are JavaScript
  numbers: IEEE 754 binary64 values. A finite value is kept as the rational it denotes;
  the negative zero, the two infinities and NaN are separate constructors. Every arithmetic
  operation computes the exact rational result and rounds it to the nearest binary64 value,
  ties to even, as the language prescribes.
\<close>

datatype jsnum = NaN | PosInf | NegInf | NegZero | Num rat

text \<open>The number of binary digits of a natural number.\<close>

fun bitlen :: "nat \<Rightarrow> nat" where
  "bitlen n = (if n = 0 then 0 else Suc (bitlen (n div 2)))"

declare bitlen.simps [simp del]

text \<open>The integer \<open>k\<close> with \<open>2 powi k \<le> x < 2 powi (k + 1)\<close>, for a positive \<open>x\<close>.\<close>

definition ilog2 :: "rat \<Rightarrow> int" where
  "ilog2 x =
     (if 1 \<le> x then int (bitlen (nat \<lfloor>x\<rfloor>)) - 1
      else
        let k = int (bitlen (nat \<lfloor>1 / x\<rfloor>)) - 1
        in if x = 2 powi (- k) then - k else - k - 1)"

text \<open>The nearest integer, a tie going to the even neighbour.\<close>

definition round_half_even :: "rat \<Rightarrow> int" where
  "round_half_even x =
     (let f = \<lfloor>x\<rfloor>; d = x - of_int f
      in if d < 1 / 2 then f
         else if 1 / 2 < d then f + 1
         else if even f then f else f + 1)"

text \<open>
  Rounding of a positive exact result to binary64: 53 significant bits, so the quantum of
  a number in the binade of \<open>2 powi k\<close> is \<open>2 powi (k - 52)\<close>, and never less than
  \<open>2 powi -1074\<close> (subnormal numbers).
\<close>

definition quantum :: "rat \<Rightarrow> rat" where
  "quantum a = 2 powi max (ilog2 a - 52) (- 1074)"

definition rnd :: "rat \<Rightarrow> rat" where
  "rnd a = of_int (round_half_even (a / quantum a)) * quantum a"

text \<open>
  Rounding of any exact result: the sign is kept, a magnitude that rounds to
  \<open>2 powi 1024\<close> or more overflows to an infinity, one that rounds to nothing is a zero of
  the sign of the exact result. An exact zero is the positive zero.
\<close>

definition round_double :: "rat \<Rightarrow> jsnum" where
  "round_double x =
     (if x = 0 then Num 0
      else
        let r = rnd \<bar>x\<bar>
        in if 2 powi 1024 \<le> r then (if x < 0 then NegInf else PosInf)
           else if r = 0 then (if x < 0 then NegZero else Num 0)
           else Num (if x < 0 then - r else r))"

text \<open>The sign bit of a number that is not NaN.\<close>

fun js_negative :: "jsnum \<Rightarrow> bool" where
  "js_negative NegInf = True"
| "js_negative NegZero = True"
| "js_negative (Num x) = (x < 0)"
| "js_negative _ = False"

fun js_is_zero :: "jsnum \<Rightarrow> bool" where
  "js_is_zero NegZero = True"
| "js_is_zero (Num x) = (x = 0)"
| "js_is_zero _ = False"

fun js_is_inf :: "jsnum \<Rightarrow> bool" where
  "js_is_inf PosInf = True"
| "js_is_inf NegInf = True"
| "js_is_inf _ = False"

text \<open>The rational a finite number denotes.\<close>

fun js_val :: "jsnum \<Rightarrow> rat" where
  "js_val (Num x) = x"
| "js_val _ = 0"

definition signed_inf :: "bool \<Rightarrow> jsnum" where
  "signed_inf neg = (if neg then NegInf else PosInf)"

definition signed_zero :: "bool \<Rightarrow> jsnum" where
  "signed_zero neg = (if neg then NegZero else Num 0)"

text \<open>The operator \<open>/\<close>: it never raises; a zero divisor gives an infinity or NaN.\<close>

definition js_div :: "jsnum \<Rightarrow> jsnum \<Rightarrow> jsnum" where
  "js_div a b =
     (if a = NaN \<or> b = NaN then NaN
      else if js_is_inf a then (if js_is_inf b then NaN else signed_inf (js_negative a \<noteq> js_negative b))
      else if js_is_inf b then signed_zero (js_negative a \<noteq> js_negative b)
      else if js_is_zero b then (if js_is_zero a then NaN else signed_inf (js_negative a \<noteq> js_negative b))
      else if js_is_zero a then signed_zero (js_negative a \<noteq> js_negative b)
      else round_double (js_val a / js_val b))"

text \<open>The operator \<open>-\<close>.\<close>

definition js_sub :: "jsnum \<Rightarrow> jsnum \<Rightarrow> jsnum" where
  "js_sub a b =
     (if a = NaN \<or> b = NaN then NaN
      else if js_is_inf a then (if js_is_inf b \<and> js_negative a = js_negative b then NaN else a)
      else if js_is_inf b then signed_inf (\<not> js_negative b)
      else if js_is_zero a \<and> js_is_zero b then signed_zero (js_negative a \<and> \<not> js_negative b)
      else round_double (js_val a - js_val b))"

text \<open>\<open>Math.abs\<close>.\<close>

fun js_abs :: "jsnum \<Rightarrow> jsnum" where
  "js_abs NaN = NaN"
| "js_abs PosInf = PosInf"
| "js_abs NegInf = PosInf"
| "js_abs NegZero = Num 0"
| "js_abs (Num x) = Num \<bar>x\<bar>"

text \<open>The operator \<open><\<close>: false whenever an operand is NaN; the two zeros are equal.\<close>

fun js_lt :: "jsnum \<Rightarrow> jsnum \<Rightarrow> bool" where
  "js_lt NaN _ = False"
| "js_lt _ NaN = False"
| "js_lt PosInf _ = False"
| "js_lt _ NegInf = False"
| "js_lt NegInf _ = True"
| "js_lt _ PosInf = True"
| "js_lt a b = (js_val a < js_val b)"

text \<open>The decimal literal \<open>0.1\<close> denotes the binary64 value nearest to one tenth.\<close>

definition lit_0_1 :: jsnum where
  "lit_0_1 = round_double (1 / 10)"

section \<open>Geometry classification\<close>

datatype geometry = Landscape | Portrait | Other

text \<open>Lines 100 to 104 of \<open>getVideoAspectRatio\<close>.\<close>

definition classify :: "jsnum \<Rightarrow> jsnum \<Rightarrow> geometry" where
  "classify width height =
     (let ratio = js_div width height
      in if js_lt (js_abs (js_sub ratio (js_div (Num 16) (Num 9)))) lit_0_1 then Landscape
         else if js_lt (js_abs (js_sub ratio (js_div (Num 9) (Num 16)))) lit_0_1 then Portrait
         else Other)"


section \<open>Strings and paths\<close>

text \<open>\<open>String.prototype.split\<close> with a separator of one character.\<close>

fun split_on :: "char \<Rightarrow> string \<Rightarrow> string list" where
  "split_on c [] = [[]]"
| "split_on c (x # xs) =
     (if x = c then [] # split_on c xs
      else (case split_on c xs of [] \<Rightarrow> [[x]] | y # ys \<Rightarrow> (x # y) # ys))"

text \<open>\<open>Array.prototype.join\<close>.\<close>

fun join_with :: "string \<Rightarrow> string list \<Rightarrow> string" where
  "join_with sep [] = []"
| "join_with sep [x] = x"
| "join_with sep (x # y # ys) = x @ sep @ join_with sep (y # ys)"

text \<open>
  \<open>path.join\<close> of the POSIX path module, for two arguments: the non-empty arguments are
  joined with a slash and the result is normalised. The normalisation drops empty and
  \<open>.\<close> segments and lets a \<open>..\<close> segment remove the segment before it; \<open>res\<close> holds the
  segments kept so far.
\<close>

fun normalizeString :: "bool \<Rightarrow> string list \<Rightarrow> string list \<Rightarrow> string list" where
  "normalizeString allowAboveRoot res [] = res"
| "normalizeString allowAboveRoot res (seg # segs) =
     (if seg = [] \<or> seg = ''.'' then normalizeString allowAboveRoot res segs
      else if seg = ''..'' then
        (if res \<noteq> [] \<and> last res \<noteq> ''..'' then normalizeString allowAboveRoot (butlast res) segs
         else if allowAboveRoot then normalizeString allowAboveRoot (res @ [''..'']) segs
         else normalizeString allowAboveRoot res segs)
      else normalizeString allowAboveRoot (res @ [seg]) segs)"

definition path_normalize :: "string \<Rightarrow> string" where
  "path_normalize path =
     (if path = [] then ''.''
      else
        let isAbsolute = (hd path = CHR ''/'');
            trailingSeparator = (last path = CHR ''/'');
            p = join_with ''/'' (normalizeString (\<not> isAbsolute) [] (split_on CHR ''/'' path))
        in if p = [] then (if isAbsolute then ''/'' else if trailingSeparator then ''./'' else ''.'')
           else (if isAbsolute then ''/'' else []) @ p @ (if trailingSeparator then ''/'' else []))"

definition path_join :: "string \<Rightarrow> string \<Rightarrow> string" where
  "path_join a b =
     (if a = [] \<and> b = [] then ''.''
      else if a = [] then path_normalize b
      else if b = [] then path_normalize a
      else path_normalize (a @ ''/'' @ b))"

type_synonym bytes = "8 word list"

text \<open>\<open>Buffer.toString("base64url")\<close>: the URL-safe alphabet, no padding.\<close>

definition base64url_alphabet :: string where
  "base64url_alphabet =
     ''ABCDEFGHIJKLMNOPQRSTUVWXYZabcdefghijklmnopqrstuvwxyz0123456789-_''"

definition b64 :: "nat \<Rightarrow> char" where
  "b64 n = base64url_alphabet ! (n mod 64)"

fun base64url :: "bytes \<Rightarrow> string" where
  "base64url (a # b # c # rest) =
     (let n = unat a * 65536 + unat b * 256 + unat c
      in [b64 (n div 262144), b64 (n div 4096), b64 (n div 64), b64 n] @ base64url rest)"
| "base64url [a, b] =
     (let n = unat a * 65536 + unat b * 256
      in [b64 (n div 262144), b64 (n div 4096), b64 (n div 64)])"
| "base64url [a] =
     (let n = unat a * 65536
      in [b64 (n div 262144), b64 (n div 4096)])"
| "base64url [] = []"

text \<open>
  Modelled from the spec: the spec names the format of the random key, URL-safe base64,
  which is that of RFC 4648, section 5; no decoder is among the sources. This is the
  decoding side, written from the format and not from the encoder above: the value of a
  character is its position in the URL-safe alphabet (capitals, small letters, digits,
  minus, underscore); four characters carry three bytes, a final group of three characters
  two bytes and of two characters one byte, with the unused low bits zero; there is no
  padding character, and a single remaining character is refused.
\<close>

definition b64_value :: "char \<Rightarrow> nat option" where
  "b64_value c =
     (let n = (of_char c :: nat)
      in if 65 \<le> n \<and> n \<le> 90 then Some (n - 65)
         else if 97 \<le> n \<and> n \<le> 122 then Some (n - 71)
         else if 48 \<le> n \<and> n \<le> 57 then Some (n + 4)
         else if n = 45 then Some 62
         else if n = 95 then Some 63
         else None)"


section \<open>Data model\<close>

datatype error =
    BadRequestError string
  | NotFoundError string
  | UserForbiddenError string
  | Error string

text \<open>
  The video record of the record store. The fields the handlers read or write are named;
  the descriptive fields of the record are the extension part of the record scheme.
\<close>

record Video =
  id_Video :: string
  userID :: string
  videoURL :: "string option"
  thumbnailURL :: "string option"

text \<open>
  An uploaded file part. \<open>size_File\<close> is the byte count the runtime reports for it; it is
  a field of its own, so that a file at the size limit can be written down.
\<close>

record File =
  size_File :: nat
  type_File :: string
  bytes_File :: bytes

datatype FormDataEntryValue = FormString string | FormFile File

record BunRequest =
  params_videoId :: "string option"
  headers :: "(string \<times> string) list"
  formData :: "error + (string \<rightharpoonup> FormDataEntryValue)"

record ApiConfig =
  jwtSecret :: string
  s3Bucket :: string
  s3Region :: string

record 'a Response =
  status :: nat
  body :: "'a Video_scheme"

text \<open>The first video stream of the probe's report, with numeric width and height.\<close>

record stream =
  width :: jsnum
  height :: jsnum

record probe_output =
  streams :: "stream list option"

record ffprobe_result =
  probe_stdoutText :: string
  probe_stderrText :: string
  probe_exited :: int

record ffmpeg_result =
  ffmpeg_stderrText :: string
  ffmpeg_exited :: int
  ffmpeg_written :: "bytes option"

text \<open>
  What lies outside the handlers: the authentication helpers, the random source, the two
  media tools, the parser of the probe's report, and the failures of the file system, the
  object store and the record store. A failed write may leave a truncated file behind.
\<close>

record env =
  getBearerToken :: "(string \<times> string) list \<Rightarrow> error + string"
  validateJWT :: "string \<Rightarrow> string \<Rightarrow> error + string"
  randomBytes :: "nat \<Rightarrow> bytes"
  write_fails :: "string \<Rightarrow> (error \<times> bytes option) option"
  ffprobe :: "string \<Rightarrow> bytes option \<Rightarrow> ffprobe_result"
  JSON_parse :: "string \<Rightarrow> error + probe_output"
  ffmpeg :: "string \<Rightarrow> string \<Rightarrow> bytes option \<Rightarrow> ffmpeg_result"
  s3_fails :: "string \<Rightarrow> error option"
  update_fails :: "string \<Rightarrow> error option"
  rm_fails :: "string \<Rightarrow> error option"

text \<open>
  The effects of a request, in the order in which the handler performs them, each with
  whether the call succeeded.
\<close>

datatype 'a event =
    Write string bool
  | Probe string bool
  | Rewrite string string bool
  | Upload string string string bool
  | Update "'a Video_scheme" bool
  | Remove string bool

record 'a state =
  db :: "string \<rightharpoonup> 'a Video_scheme"
  fs :: "string \<rightharpoonup> bytes"
  s3 :: "string \<rightharpoonup> bytes \<times> string"
  trace :: "'a event list"

section \<open>Sequencing of fallible, effectful steps\<close>

type_synonym ('a, 'r) step = "'a state \<Rightarrow> (error + 'r) \<times> 'a state"

definition throw :: "error \<Rightarrow> ('a, 'r) step" where
  "throw e s = (Inl e, s)"

definition succeed :: "'r \<Rightarrow> ('a, 'r) step" where
  "succeed x s = (Inr x, s)"

text \<open>\<open>const x = await m; f x\<close>: a rejection of \<open>m\<close> leaves \<open>f\<close> unexecuted.\<close>

definition await :: "('a, 'r) step \<Rightarrow> ('r \<Rightarrow> ('a, 'q) step) \<Rightarrow> ('a, 'q) step" where
  "await m f s = (case m s of (Inl e, s') \<Rightarrow> (Inl e, s') | (Inr x, s') \<Rightarrow> f x s')"

definition lift :: "error + 'r \<Rightarrow> ('a, 'r) step" where
  "lift r s = (r, s)"

definition emit :: "'a event \<Rightarrow> 'a state \<Rightarrow> 'a state" where
  "emit ev s = s\<lparr>trace := trace s @ [ev]\<rparr>"

section \<open>Collaborators of the handlers\<close>

text \<open>
  Modelled from the spec: \<open>getVideo\<close> of the record store is not among the sources; the
  spec gives it as \<open>get(id) -> Record | not-found\<close>. The caller receives a copy of the row.
\<close>

definition getVideo :: "string \<Rightarrow> ('a, 'a Video_scheme option) step" where
  "getVideo videoId s = (Inr (db s videoId), s)"

text \<open>
  Modelled from the spec: \<open>updateVideo\<close> of the record store is not among the sources; the
  spec gives it as \<open>update(Record) -> ok | error\<close>, a single-row, last-writer-wins update
  keyed by the video identity.
\<close>

definition updateVideo :: "env \<Rightarrow> 'a Video_scheme \<Rightarrow> ('a, unit) step" where
  "updateVideo env video s =
     (case update_fails env (id_Video video) of
        Some e \<Rightarrow> (Inl e, emit (Update video False) s)
      | None \<Rightarrow>
          (Inr (), emit (Update video True) (s\<lparr>db := (db s)(id_Video video \<mapsto> video)\<rparr>)))"

text \<open>
  Modelled from the spec: \<open>uploadVideoToS3\<close> is not among the sources; the spec gives it
  as \<open>put(key, localPath, contentType) -> ok | error\<close>, which stores the full current
  contents of the local file under exactly the key, or nothing at all. A local path that
  holds no file cannot be read, which is a failure.
\<close>

definition uploadVideoToS3 ::
  "env \<Rightarrow> ApiConfig \<Rightarrow> string \<Rightarrow> string \<Rightarrow> string \<Rightarrow> ('a, unit) step" where
  "uploadVideoToS3 env cfg key processesFilePath contentType s =
     (case fs s processesFilePath of
        None \<Rightarrow>
          (Inl (Error ''ENOENT''), emit (Upload key processesFilePath contentType False) s)
      | Some content \<Rightarrow>
          (case s3_fails env key of
             Some e \<Rightarrow> (Inl e, emit (Upload key processesFilePath contentType False) s)
           | None \<Rightarrow>
               (Inr (), emit (Upload key processesFilePath contentType True)
                  (s\<lparr>s3 := (s3 s)(key \<mapsto> (content, contentType))\<rparr>))))"

text \<open>
  Modelled from the spec: \<open>mediaTypeToExt\<close> is not among the sources; the spec says that
  it maps \<open>video/mp4\<close> to \<open>.mp4\<close> and rejects any other declared media type with a
  \<open>BadRequest\<close>.
\<close>

definition mediaTypeToExt :: "string \<Rightarrow> error + string" where
  "mediaTypeToExt mediaType =
     (if mediaType = ''video/mp4'' then Inr ''.mp4''
      else Inl (BadRequestError ''Unsupported media type''))"

text \<open>
  Modelled from the spec: \<open>respondWithJSON\<close> is not among the sources; the spec gives the
  success response as status 200 with the updated record as its JSON body.
\<close>

definition respondWithJSON :: "nat \<Rightarrow> 'a Video_scheme \<Rightarrow> 'a Response" where
  "respondWithJSON code payload = \<lparr>status = code, body = payload\<rparr>"

text \<open>\<open>Bun.write(path, file)\<close>.\<close>

definition Bun_write :: "env \<Rightarrow> string \<Rightarrow> File \<Rightarrow> ('a, unit) step" where
  "Bun_write env path file s =
     (case write_fails env path of
        Some (e, left) \<Rightarrow>
          (Inl e, emit (Write path False)
             (s\<lparr>fs := (case left of None \<Rightarrow> fs s | Some b \<Rightarrow> (fs s)(path \<mapsto> b))\<rparr>))
      | None \<Rightarrow>
          (Inr (), emit (Write path True) (s\<lparr>fs := (fs s)(path \<mapsto> bytes_File file)\<rparr>)))"

text \<open>\<open>rm(path, { force: true })\<close>: a path that holds nothing is not an error.\<close>

definition rm :: "env \<Rightarrow> string \<Rightarrow> 'a state \<Rightarrow> error option \<times> 'a state" where
  "rm env path s =
     (case rm_fails env path of
        Some e \<Rightarrow> (Some e, emit (Remove path False) s)
      | None \<Rightarrow> (None, emit (Remove path True) (s\<lparr>fs := (fs s)(path := None)\<rparr>)))"

text \<open>
  \<open>await Promise.all([rm(...), ...])\<close>: every removal of the array is started before the
  await; the await rejects when one of them does (here with the first failure in the
  order of the array).
\<close>

fun Promise_all_rm :: "env \<Rightarrow> string list \<Rightarrow> ('a, unit) step" where
  "Promise_all_rm env [] s = (Inr (), s)"
| "Promise_all_rm env (p # ps) s =
     (case rm env p s of
        (r, s') \<Rightarrow>
          (case Promise_all_rm env ps s' of
             (rs, s'') \<Rightarrow> ((case r of Some e \<Rightarrow> Inl e | None \<Rightarrow> rs), s'')))"

section \<open>The probe and the rewriter\<close>

fun geometry_string :: "geometry \<Rightarrow> string" where
  "geometry_string Landscape = ''landscape''"
| "geometry_string Portrait = ''portrait''"
| "geometry_string Other = ''other''"

definition getVideoAspectRatio :: "env \<Rightarrow> string \<Rightarrow> ('a, geometry) step" where
  "getVideoAspectRatio env inputFilePath s =
     (let proc = ffprobe env inputFilePath (fs s inputFilePath)
      in if probe_exited proc \<noteq> 0 then
           (Inl (Error (''ffprobe error: '' @ probe_stderrText proc)),
            emit (Probe inputFilePath False) s)
         else
           (case JSON_parse env (probe_stdoutText proc) of
              Inl e \<Rightarrow> (Inl e, emit (Probe inputFilePath False) s)
            | Inr output \<Rightarrow>
                (case streams output of
                   None \<Rightarrow>
                     (Inl (Error ''No video streams found''), emit (Probe inputFilePath False) s)
                 | Some [] \<Rightarrow>
                     (Inl (Error ''No video streams found''), emit (Probe inputFilePath False) s)
                 | Some (st # _) \<Rightarrow>
                     (Inr (classify (width st) (height st)),
                      emit (Probe inputFilePath True) s))))"

text \<open>The output path of the rewriter: the input path up to its first dot, and a suffix.\<close>

definition outputFilePath_of :: "string \<Rightarrow> string" where
  "outputFilePath_of inputFilePath =
     (case split_on CHR ''.'' inputFilePath of
        key # _ \<Rightarrow> key @ ''.processed.mp4''
      | [] \<Rightarrow> ''undefined.processed.mp4'')"

definition processVideoForFastStart :: "env \<Rightarrow> string \<Rightarrow> ('a, string) step" where
  "processVideoForFastStart env inputFilePath s =
     (let outputFilePath = outputFilePath_of inputFilePath;
          proc = ffmpeg env inputFilePath outputFilePath (fs s inputFilePath);
          s' = s\<lparr>fs := (case ffmpeg_written proc of
                           None \<Rightarrow> fs s
                         | Some b \<Rightarrow> (fs s)(outputFilePath \<mapsto> b))\<rparr>
      in if ffmpeg_exited proc \<noteq> 0 then
           (Inl (Error (''FFmpeg error: '' @ ffmpeg_stderrText proc)),
            emit (Rewrite inputFilePath outputFilePath False) s')
         else (Inr outputFilePath, emit (Rewrite inputFilePath outputFilePath True) s'))"

section \<open>The upload-video handlers\<close>

text \<open>\<open>1 << 30\<close>: a shift of 32-bit integers.\<close>

definition MAX_UPLOAD_SIZE :: int where
  "MAX_UPLOAD_SIZE = sint (push_bit 30 (1 :: 32 word))"

definition s3_url :: "ApiConfig \<Rightarrow> string \<Rightarrow> string" where
  "s3_url cfg key =
     ''https://'' @ s3Bucket cfg @ ''.s3.'' @ s3Region cfg @ ''.amazonaws.com/'' @ key"

text \<open>
  Lines 13 to 45 of both handlers: the checks that precede the pipeline. They yield the
  video identity, the fetched record and the file part.
\<close>

definition checks ::
  "env \<Rightarrow> ApiConfig \<Rightarrow> BunRequest \<Rightarrow> ('a, string \<times> 'a Video_scheme \<times> File) step" where
  "checks env cfg req =
     (case params_videoId req of
        None \<Rightarrow> throw (BadRequestError ''Invalid video ID'')
      | Some videoId \<Rightarrow>
          if videoId = [] then throw (BadRequestError ''Invalid video ID'')
          else
            await (lift (getBearerToken env (headers req))) (\<lambda>token.
            await (lift (validateJWT env token (jwtSecret cfg))) (\<lambda>userID'.
            await (getVideo videoId) (\<lambda>found.
              case found of
                None \<Rightarrow> throw (NotFoundError ''Video not found'')
              | Some video \<Rightarrow>
                  if userID video \<noteq> userID' then
                    throw (UserForbiddenError ''Forbidden access to the video'')
                  else
                    await (lift (formData req)) (\<lambda>form.
                      case form ''video'' of
                        Some (FormFile videoFile) \<Rightarrow>
                          if MAX_UPLOAD_SIZE < int (size_File videoFile) then
                            throw (BadRequestError
                              ''Video file exceeds the maximum allowed size of 1GB'')
                          else if type_File videoFile \<noteq> ''video/mp4'' then
                            throw (BadRequestError ''Invalid file type. Only MP4 allowed.'')
                          else succeed (videoId, video, videoFile)
                      | _ \<Rightarrow> throw (BadRequestError ''Video file missing''))))))"

text \<open>The handler of \<open>src/unnamed/part_001\<close>: probe, rewrite, orientation-prefixed key.\<close>

definition handlerUploadVideo_part_001 ::
  "env \<Rightarrow> ApiConfig \<Rightarrow> BunRequest \<Rightarrow> ('a, 'a Response) step" where
  "handlerUploadVideo_part_001 env cfg req =
     await (checks env cfg req) (\<lambda>(videoId, video, videoFile).
       let tempFilePath = path_join ''/tmp'' (videoId @ ''.mp4'')
       in await (Bun_write env tempFilePath videoFile) (\<lambda>_.
          await (getVideoAspectRatio env tempFilePath) (\<lambda>aspectRatio.
          await (processVideoForFastStart env tempFilePath) (\<lambda>processedFilePath.
            let key = geometry_string aspectRatio @ ''/'' @ videoId @ ''.mp4''
            in await (uploadVideoToS3 env cfg key processedFilePath ''video/mp4'') (\<lambda>_.
                 let videoUrl = s3_url cfg key;
                     video' = video\<lparr>videoURL := Some videoUrl\<rparr>
                 in await (updateVideo env video') (\<lambda>_.
                    await (Promise_all_rm env
                             [tempFilePath, tempFilePath @ ''.processed.mp4'']) (\<lambda>_.
                    succeed (respondWithJSON 200 video'))))))))"

text \<open>The handler of \<open>src/api/videos.ts\<close>: no probe, no rewrite, random opaque key.\<close>

definition handlerUploadVideo_videos_ts ::
  "env \<Rightarrow> ApiConfig \<Rightarrow> BunRequest \<Rightarrow> ('a, 'a Response) step" where
  "handlerUploadVideo_videos_ts env cfg req =
     await (checks env cfg req) (\<lambda>(videoId, video, videoFile).
       let mediaType = type_File videoFile
       in await (lift (mediaTypeToExt mediaType)) (\<lambda>ext.
            let filename = base64url (randomBytes env 32) @ ext;
                tempFilePath = path_join ''/tmp'' (videoId @ ''.mp4'')
            in await (Bun_write env tempFilePath videoFile) (\<lambda>_.
               await (uploadVideoToS3 env cfg filename tempFilePath mediaType) (\<lambda>_.
                 let videoUrl = s3_url cfg filename;
                     video' = video\<lparr>videoURL := Some videoUrl\<rparr>
                 in await (updateVideo env video') (\<lambda>_.
                    await (Promise_all_rm env [tempFilePath]) (\<lambda>_.
                    succeed (respondWithJSON 200 video')))))))"

section \<open>Notions used in the statements\<close>

text \<open>The effects a run from \<open>s\<close> to \<open>s'\<close> has added to the trace.\<close>

definition new_events :: "'a state \<Rightarrow> 'a state \<Rightarrow> 'a event list" where
  "new_events s s' = drop (length (trace s)) (trace s')"

text \<open>The states of the ingestion pipeline that a successful effect reaches.\<close>

datatype stage = Staged | Probed | Rewritten | Uploaded | Committed

fun stage_of :: "'a event \<Rightarrow> stage option" where
  "stage_of (Write p ok) = (if ok then Some Staged else None)"
| "stage_of (Probe p ok) = (if ok then Some Probed else None)"
| "stage_of (Rewrite p out ok) = (if ok then Some Rewritten else None)"
| "stage_of (Upload key p ct ok) = (if ok then Some Uploaded else None)"
| "stage_of (Update v ok) = (if ok then Some Committed else None)"
| "stage_of (Remove p ok) = None"

definition stages :: "'a event list \<Rightarrow> stage list" where
  "stages evs = List.map_filter stage_of evs"

text \<open>Whether an effect is a call of the pipeline that failed.\<close>

fun failed :: "'a event \<Rightarrow> bool" where
  "failed (Write p ok) = (\<not> ok)"
| "failed (Probe p ok) = (\<not> ok)"
| "failed (Rewrite p out ok) = (\<not> ok)"
| "failed (Upload key p ct ok) = (\<not> ok)"
| "failed (Update v ok) = (\<not> ok)"
| "failed (Remove p ok) = False"

fun is_Remove :: "'a event \<Rightarrow> bool" where
  "is_Remove (Remove p ok) = True"
| "is_Remove _ = False"

text \<open>
  The classification rule in the words of the specification, on exact rationals:
  landscape if \<open>|width/height - 16/9| < 0.1\<close>, else portrait if
  \<open>|width/height - 9/16| < 0.1\<close>, else other.
\<close>

definition spec_classify :: "rat \<Rightarrow> rat \<Rightarrow> geometry" where
  "spec_classify w h =
     (if \<bar>w / h - 16 / 9\<bar> < 1 / 10 then Landscape
      else if \<bar>w / h - 9 / 16\<bar> < 1 / 10 then Portrait
      else Other)"

section \<open>A concrete request\<close>

definition cfg0 :: ApiConfig where
  "cfg0 = \<lparr>jwtSecret = ''secret'', s3Bucket = ''tubely'', s3Region = ''us-east-2''\<rparr>"

definition video0 :: Video where
  "video0 = \<lparr>id_Video = ''v1'', userID = ''alice'', videoURL = None,
              thumbnailURL = Some ''/assets/v1.png''\<rparr>"

definition file0 :: File where
  "file0 = \<lparr>size_File = 3, type_File = ''video/mp4'', bytes_File = [1, 2, 3]\<rparr>"

definition req0 :: BunRequest where
  "req0 = \<lparr>params_videoId = Some ''v1'', headers = [(''Authorization'', ''Bearer t'')],
           formData = Inr [''video'' \<mapsto> FormFile file0]\<rparr>"

definition env0 :: env where
  "env0 = \<lparr>getBearerToken = (\<lambda>h. Inr ''t''),
           validateJWT = (\<lambda>token secret. Inr ''alice''),
           randomBytes = (\<lambda>n. if n = 32 then
             [0, 1, 2, 3, 4, 5, 6, 7, 8, 9, 10, 11, 12, 13, 14, 15, 16, 17, 18, 19, 20, 21, 22,
              23, 24, 25, 26, 27, 28, 29, 30, 31] else []),
           write_fails = (\<lambda>p. None),
           ffprobe = (\<lambda>p content.
             \<lparr>probe_stdoutText = ''{}'', probe_stderrText = [], probe_exited = 0\<rparr>),
           JSON_parse = (\<lambda>text. Inr \<lparr>streams = Some [\<lparr>width = Num 1920, height = Num 1080\<rparr>]\<rparr>),
           ffmpeg = (\<lambda>inp out content.
             \<lparr>ffmpeg_stderrText = [], ffmpeg_exited = 0, ffmpeg_written = content\<rparr>),
           s3_fails = (\<lambda>key. None),
           update_fails = (\<lambda>i. None),
           rm_fails = (\<lambda>p. None)\<rparr>"

definition s0 :: "unit state" where
  "s0 = \<lparr>db = [''v1'' \<mapsto> video0], fs = Map.empty, s3 = Map.empty, trace = []\<rparr>"

text \<open>The same request from a user who does not own the record.\<close>

definition env_mallory :: env where
  "env_mallory = env0\<lparr>validateJWT := (\<lambda>token secret. Inr ''mallory'')\<rparr>"

text \<open>The same request with a file part of another declared media type, or size.\<close>

definition req_with :: "File \<Rightarrow> BunRequest" where
  "req_with f = req0\<lparr>formData := Inr [''video'' \<mapsto> FormFile f]\<rparr>"

definition file_mov :: File where
  "file_mov = file0\<lparr>type_File := ''video/quicktime''\<rparr>"

definition file_1GiB :: File where
  "file_1GiB = file0\<lparr>size_File := 2 ^ 30\<rparr>"

definition file_1GiB_plus_1 :: File where
  "file_1GiB_plus_1 = file0\<lparr>size_File := 2 ^ 30 + 1\<rparr>"

text \<open>An object store that refuses the upload.\<close>

definition env_s3_fails :: env where
  "env_s3_fails = env0\<lparr>s3_fails := (\<lambda>key. Some (Error ''AccessDenied''))\<rparr>"

text \<open>A probe that reports a first stream of height zero.\<close>

definition env_zero_height :: env where
  "env_zero_height = env0\<lparr>JSON_parse := (\<lambda>text.
     Inr \<lparr>streams = Some [\<lparr>width = Num 1920, height = Num 0\<rparr>]\<rparr>)\<rparr>"

text \<open>A probe that exits with status 1.\<close>

definition env_probe_fails :: env where
  "env_probe_fails = env0\<lparr>ffprobe := (\<lambda>p content.
     \<lparr>probe_stdoutText = [], probe_stderrText = ''moov atom not found'', probe_exited = 1\<rparr>)\<rparr>"



section \<open>Properties of the steps\<close>

lemmas step_defs = throw_def succeed_def await_def lift_def getVideo_def

lemmas io_defs = Bun_write_def getVideoAspectRatio_def processVideoForFastStart_def
  uploadVideoToS3_def updateVideo_def rm_def emit_def

lemma checks_state: "checks env cfg req s = (r, s') \<Longrightarrow> s' = s"
  by (auto simp: checks_def step_defs split: option.splits sum.splits if_splits FormDataEntryValue.splits)

lemma awaitE:
  assumes "await m f s = (r, s')"
  obtains (err) e where "m s = (Inl e, s')" "r = Inl e"
        | (ok) x s1 where "m s = (Inr x, s1)" "f x s1 = (r, s')"
  using assms by (auto simp: await_def split: prod.splits sum.splits)

lemma Bun_write_step:
  "Bun_write env p f s = (r, s') \<Longrightarrow>
     trace s' = trace s @ [Write p (\<not> isl r)] \<and> db s' = db s \<and> s3 s' = s3 s \<and>
     (\<not> isl r \<longrightarrow> fs s' = (fs s)(p \<mapsto> bytes_File f))"
  by (auto simp: Bun_write_def emit_def split: option.splits)

lemma getVideoAspectRatio_step:
  "getVideoAspectRatio env p s = (r, s') \<Longrightarrow>
     trace s' = trace s @ [Probe p (\<not> isl r)] \<and> db s' = db s \<and> s3 s' = s3 s \<and> fs s' = fs s"
  by (auto simp: getVideoAspectRatio_def emit_def Let_def split: option.splits sum.splits list.splits if_splits)

lemma getVideoAspectRatio_fs:
  "fs s1 p = fs s2 p \<Longrightarrow> fst (getVideoAspectRatio env p s1) = fst (getVideoAspectRatio env p s2)"
  by (auto simp: getVideoAspectRatio_def emit_def Let_def split: option.splits sum.splits list.splits if_splits)

lemma processVideoForFastStart_step:
  "processVideoForFastStart env p s = (r, s') \<Longrightarrow>
     trace s' = trace s @ [Rewrite p (outputFilePath_of p) (\<not> isl r)] \<and> db s' = db s \<and> s3 s' = s3 s \<and>
     (\<forall>x. r = Inr x \<longrightarrow> x = outputFilePath_of p)"
  by (auto simp: processVideoForFastStart_def emit_def Let_def split: option.splits if_splits)

lemma uploadVideoToS3_step:
  "uploadVideoToS3 env cfg key p ct s = (r, s') \<Longrightarrow>
     trace s' = trace s @ [Upload key p ct (\<not> isl r)] \<and> db s' = db s \<and> fs s' = fs s \<and>
     (isl r \<longrightarrow> s3 s' = s3 s) \<and>
     (\<not> isl r \<longrightarrow> (\<exists>content. fs s p = Some content \<and> s3 s' = (s3 s)(key \<mapsto> (content, ct))))"
  by (auto simp: uploadVideoToS3_def emit_def split: option.splits)

lemma updateVideo_step:
  "updateVideo env v s = (r, s') \<Longrightarrow>
     trace s' = trace s @ [Update v (\<not> isl r)] \<and> fs s' = fs s \<and> s3 s' = s3 s \<and>
     db s' = (if isl r then db s else (db s)(id_Video v \<mapsto> v))"
  by (auto simp: updateVideo_def emit_def split: option.splits)

lemma rm_step:
  "rm env p s = (r, s') \<Longrightarrow>
     trace s' = trace s @ [Remove p (r = None)] \<and> db s' = db s \<and> s3 s' = s3 s \<and>
     fs s' = (if r = None then (fs s)(p := None) else fs s)"
  by (auto simp: rm_def emit_def split: option.splits)

lemma Promise_all_rm_keeps_absent:
  "Promise_all_rm env ps s = (r, s') \<Longrightarrow> fs s q = None \<Longrightarrow> fs s' q = None"
proof (induction ps arbitrary: s r s')
  case Nil
  then show ?case by auto
next
  case (Cons p ps)
  obtain r1 s1 where 1: "rm env p s = (r1, s1)" by (cases "rm env p s")
  obtain r2 s2 where 2: "Promise_all_rm env ps s1 = (r2, s2)" by (cases "Promise_all_rm env ps s1")
  from Cons.prems(1) 1 2 have s': "s' = s2" by simp
  from rm_step [OF 1] Cons.prems(2) have "fs s1 q = None" by (simp split: if_splits)
  from Cons.IH [OF 2 this] s' show ?case by simp
qed

lemma Promise_all_rm_step:
  "Promise_all_rm env ps s = (r, s') \<Longrightarrow>
     trace s' = trace s @ map (\<lambda>p. Remove p (rm_fails env p = None)) ps \<and> db s' = db s \<and> s3 s' = s3 s \<and>
     (isl r \<longleftrightarrow> (\<exists>p \<in> set ps. rm_fails env p \<noteq> None)) \<and>
     (\<forall>p \<in> set ps. rm_fails env p = None \<longrightarrow> fs s' p = None)"
proof (induction ps arbitrary: s r s')
  case Nil
  then show ?case by auto
next
  case (Cons p ps)
  obtain r1 s1 where 1: "rm env p s = (r1, s1)" by (cases "rm env p s")
  obtain r2 s2 where 2: "Promise_all_rm env ps s1 = (r2, s2)" by (cases "Promise_all_rm env ps s1")
  from Cons.prems 1 2 have r: "r = (case r1 of Some e \<Rightarrow> Inl e | None \<Rightarrow> r2)" and s': "s' = s2"
    by simp_all
  have r1: "r1 = rm_fails env p" using 1 by (auto simp: rm_def split: option.splits)
  note a = rm_step [OF 1] and b = Cons.IH [OF 2]
  have absent: "rm_fails env p = None \<Longrightarrow> fs s2 p = None"
    using Promise_all_rm_keeps_absent [OF 2, of p] a r1 by simp
  from a b have "trace s' = trace s @ map (\<lambda>p. Remove p (rm_fails env p = None)) (p # ps)"
    by (simp add: s' r1)
  moreover from a b have "db s' = db s" "s3 s' = s3 s" by (simp_all add: s')
  moreover from b have "isl r \<longleftrightarrow> (\<exists>p \<in> set (p # ps). rm_fails env p \<noteq> None)"
    by (cases r1) (auto simp: r r1 [symmetric])
  moreover from b absent have "\<forall>q \<in> set (p # ps). rm_fails env q = None \<longrightarrow> fs s' q = None"
    by (simp add: s')
  ultimately show ?case by blast
qed

lemma part_001_run:
  assumes c: "checks env cfg req s = (Inr (videoId, video, videoFile), s)"
    and h: "handlerUploadVideo_part_001 env cfg req s = (r, s')"
  defines "p \<equiv> path_join ''/tmp'' (videoId @ ''.mp4'')"
  defines "out \<equiv> outputFilePath_of p"
  defines "key \<equiv> \<lambda>g. geometry_string g @ ''/'' @ videoId @ ''.mp4''"
  defines "v' \<equiv> \<lambda>g. video\<lparr>videoURL := Some (s3_url cfg (key g))\<rparr>"
  defines "probed \<equiv> \<lambda>g. fst (getVideoAspectRatio env p (s\<lparr>fs := (fs s)(p \<mapsto> bytes_File videoFile)\<rparr>)) = Inr g"
  shows "(isl r \<and> new_events s s' = [Write p False] \<and> db s' = db s)
      \<or> (isl r \<and> new_events s s' = [Write p True, Probe p False] \<and> db s' = db s)
      \<or> (isl r \<and> new_events s s' = [Write p True, Probe p True, Rewrite p out False] \<and> db s' = db s)
      \<or> (\<exists>g. isl r \<and> probed g \<and> db s' = db s \<and>
            new_events s s' = [Write p True, Probe p True, Rewrite p out True,
              Upload (key g) out ''video/mp4'' False])
      \<or> (\<exists>g. isl r \<and> probed g \<and> db s' = db s \<and>
            new_events s s' = [Write p True, Probe p True, Rewrite p out True,
              Upload (key g) out ''video/mp4'' True, Update (v' g) False])
      \<or> (\<exists>g. probed g \<and> db s' = (db s)(id_Video video \<mapsto> v' g) \<and>
            new_events s s' = [Write p True, Probe p True, Rewrite p out True,
              Upload (key g) out ''video/mp4'' True, Update (v' g) True,
              Remove p (rm_fails env p = None),
              Remove (p @ ''.processed.mp4'') (rm_fails env (p @ ''.processed.mp4'') = None)] \<and>
            (rm_fails env p = None \<longrightarrow> fs s' p = None) \<and>
            (if rm_fails env p = None \<and> rm_fails env (p @ ''.processed.mp4'') = None
             then r = Inr (respondWithJSON 200 (v' g)) else isl r))"
proof -
  from h c have run: "await (Bun_write env p videoFile) (\<lambda>_.
          await (getVideoAspectRatio env p) (\<lambda>aspectRatio.
          await (processVideoForFastStart env p) (\<lambda>processedFilePath.
            await (uploadVideoToS3 env cfg (key aspectRatio) processedFilePath ''video/mp4'') (\<lambda>_.
                 await (updateVideo env (v' aspectRatio)) (\<lambda>_.
                    await (Promise_all_rm env [p, p @ ''.processed.mp4'']) (\<lambda>_.
                    succeed (respondWithJSON 200 (v' aspectRatio)))))))) s = (r, s')"
    unfolding handlerUploadVideo_part_001_def p_def key_def v'_def
    by (simp add: await_def Let_def)
  from run show ?thesis
  proof (cases rule: awaitE)
    case (err e)
    from Bun_write_step [OF err(1)] show ?thesis by (simp add: new_events_def err(2))
  next
    case w: (ok x s1)
    note w1 = Bun_write_step [OF w(1)]
    have fs1: "fs s1 p = Some (bytes_File videoFile)" using w1 by simp
    from w(2) show ?thesis
    proof (cases rule: awaitE)
      case (err e)
      from Bun_write_step [OF w(1)] getVideoAspectRatio_step [OF err(1)]
      show ?thesis by (simp add: new_events_def err(2))
    next
      case pr: (ok g s2)
      note p1 = getVideoAspectRatio_step [OF pr(1)]
      have "fst (getVideoAspectRatio env p s1) = Inr g" using pr(1) by simp
      then have pg: "probed g"
        unfolding probed_def using getVideoAspectRatio_fs [of s1 p "s\<lparr>fs := (fs s)(p \<mapsto> bytes_File videoFile)\<rparr>" env] fs1
        by simp
      from pr(2) show ?thesis
      proof (cases rule: awaitE)
        case (err e)
        from w1 p1 processVideoForFastStart_step [OF err(1)]
        show ?thesis by (simp add: new_events_def err(2) out_def)
      next
        case rw: (ok o' s3')
        note r1 = processVideoForFastStart_step [OF rw(1)]
        have o': "o' = out" using r1 by (simp add: out_def)
        from rw(2) show ?thesis
        proof (cases rule: awaitE)
          case (err e)
          from w1 p1 r1 uploadVideoToS3_step [OF err(1)] pg
          have "isl r \<and> probed g \<and> db s' = db s \<and>
            new_events s s' = [Write p True, Probe p True, Rewrite p out True,
              Upload (key g) out ''video/mp4'' False]"
            by (simp add: new_events_def err(2) out_def o')
          then show ?thesis by blast
        next
          case up: (ok u s4)
          note u1 = uploadVideoToS3_step [OF up(1)]
          from up(2) show ?thesis
          proof (cases rule: awaitE)
            case (err e)
            from w1 p1 r1 u1 updateVideo_step [OF err(1)] pg
            have "isl r \<and> probed g \<and> db s' = db s \<and>
              new_events s s' = [Write p True, Probe p True, Rewrite p out True,
                Upload (key g) out ''video/mp4'' True, Update (v' g) False]"
              by (simp add: new_events_def err(2) out_def o')
            then show ?thesis by blast
          next
            case cm: (ok c s5)
            note c1 = updateVideo_step [OF cm(1)]
            have idv: "id_Video (v' g) = id_Video video" by (simp add: v'_def)
            from cm(2) have "probed g \<and> db s' = (db s)(id_Video video \<mapsto> v' g) \<and>
              new_events s s' = [Write p True, Probe p True, Rewrite p out True,
                Upload (key g) out ''video/mp4'' True, Update (v' g) True,
                Remove p (rm_fails env p = None),
                Remove (p @ ''.processed.mp4'') (rm_fails env (p @ ''.processed.mp4'') = None)] \<and>
              (rm_fails env p = None \<longrightarrow> fs s' p = None) \<and>
              (if rm_fails env p = None \<and> rm_fails env (p @ ''.processed.mp4'') = None
               then r = Inr (respondWithJSON 200 (v' g)) else isl r)"
            proof (cases rule: awaitE)
              case (err e)
              from w1 p1 r1 u1 c1 Promise_all_rm_step [OF err(1)] pg
              show ?thesis by (simp add: new_events_def err(2) out_def o' idv)
            next
              case (ok y s6)
              from ok(2) have "r = Inr (respondWithJSON 200 (v' g))" "s' = s6"
                by (simp_all add: succeed_def)
              with w1 p1 r1 u1 c1 Promise_all_rm_step [OF ok(1)] pg
              show ?thesis by (simp add: new_events_def out_def o' idv)
            qed
            then have "\<exists>g. probed g \<and> db s' = (db s)(id_Video video \<mapsto> v' g) \<and>
              new_events s s' = [Write p True, Probe p True, Rewrite p out True,
                Upload (key g) out ''video/mp4'' True, Update (v' g) True,
                Remove p (rm_fails env p = None),
                Remove (p @ ''.processed.mp4'') (rm_fails env (p @ ''.processed.mp4'') = None)] \<and>
              (rm_fails env p = None \<longrightarrow> fs s' p = None) \<and>
              (if rm_fails env p = None \<and> rm_fails env (p @ ''.processed.mp4'') = None
               then r = Inr (respondWithJSON 200 (v' g)) else isl r)" by (rule exI)
            then show ?thesis by (intro disjI2)
          qed
        qed
      qed
    qed
  qed
qed


lemma checks_Inr:
  "checks env cfg req s = (Inr (videoId, video, videoFile), s') \<Longrightarrow>
     params_videoId req = Some videoId \<and> videoId \<noteq> [] \<and> db s videoId = Some video \<and>
     (\<exists>token. getBearerToken env (headers req) = Inr token \<and>
        validateJWT env token (jwtSecret cfg) = Inr (userID video)) \<and>
     (\<exists>form. formData req = Inr form \<and> form ''video'' = Some (FormFile videoFile)) \<and>
     int (size_File videoFile) \<le> MAX_UPLOAD_SIZE \<and> type_File videoFile = ''video/mp4''"
  by (auto simp: checks_def step_defs split: option.splits sum.splits if_splits FormDataEntryValue.splits)

lemma videos_ts_run:
  assumes c: "checks env cfg req s = (Inr (videoId, video, videoFile), s)"
    and h: "handlerUploadVideo_videos_ts env cfg req s = (r, s')"
  defines "p \<equiv> path_join ''/tmp'' (videoId @ ''.mp4'')"
  defines "key \<equiv> base64url (randomBytes env 32) @ ''.mp4''"
  defines "v' \<equiv> video\<lparr>videoURL := Some (s3_url cfg key)\<rparr>"
  shows "(isl r \<and> new_events s s' = [Write p False] \<and> db s' = db s)
      \<or> (isl r \<and> db s' = db s \<and>
            new_events s s' = [Write p True, Upload key p ''video/mp4'' False])
      \<or> (isl r \<and> db s' = db s \<and>
            new_events s s' = [Write p True, Upload key p ''video/mp4'' True, Update v' False])
      \<or> (db s' = (db s)(id_Video video \<mapsto> v') \<and>
            new_events s s' = [Write p True, Upload key p ''video/mp4'' True, Update v' True,
              Remove p (rm_fails env p = None)] \<and>
            (rm_fails env p = None \<longrightarrow> fs s' p = None) \<and>
            (if rm_fails env p = None then r = Inr (respondWithJSON 200 v') else isl r))"
proof -
  have mt: "type_File videoFile = ''video/mp4''" using checks_Inr [OF c] by simp
  from h c have run: "await (Bun_write env p videoFile) (\<lambda>_.
               await (uploadVideoToS3 env cfg key p ''video/mp4'') (\<lambda>_.
                 await (updateVideo env v') (\<lambda>_.
                    await (Promise_all_rm env [p]) (\<lambda>_.
                    succeed (respondWithJSON 200 v'))))) s = (r, s')"
    unfolding handlerUploadVideo_videos_ts_def p_def key_def v'_def
    by (simp add: await_def [of "checks env cfg req"] await_def [of "lift x" for x] lift_def
        Let_def mt mediaTypeToExt_def)
  from run show ?thesis
  proof (cases rule: awaitE)
    case (err e)
    from Bun_write_step [OF err(1)] show ?thesis by (simp add: new_events_def err(2))
  next
    case w: (ok x s1)
    note w1 = Bun_write_step [OF w(1)]
    from w(2) show ?thesis
    proof (cases rule: awaitE)
      case (err e)
      from w1 uploadVideoToS3_step [OF err(1)]
      show ?thesis by (simp add: new_events_def err(2))
    next
      case up: (ok u s4)
      note u1 = uploadVideoToS3_step [OF up(1)]
      from up(2) show ?thesis
      proof (cases rule: awaitE)
        case (err e)
        from w1 u1 updateVideo_step [OF err(1)]
        show ?thesis by (simp add: new_events_def err(2))
      next
        case cm: (ok c s5)
        note c1 = updateVideo_step [OF cm(1)]
        have idv: "id_Video v' = id_Video video" by (simp add: v'_def)
        from cm(2) have "db s' = (db s)(id_Video video \<mapsto> v') \<and>
            new_events s s' = [Write p True, Upload key p ''video/mp4'' True, Update v' True,
              Remove p (rm_fails env p = None)] \<and>
            (rm_fails env p = None \<longrightarrow> fs s' p = None) \<and>
            (if rm_fails env p = None then r = Inr (respondWithJSON 200 v') else isl r)"
        proof (cases rule: awaitE)
          case (err e)
          from w1 u1 c1 Promise_all_rm_step [OF err(1)]
          show ?thesis by (simp add: new_events_def err(2) idv)
        next
          case (ok y s6)
          from ok(2) have "r = Inr (respondWithJSON 200 v')" "s' = s6"
            by (simp_all add: succeed_def)
          with w1 u1 c1 Promise_all_rm_step [OF ok(1)]
          show ?thesis by (simp add: new_events_def idv)
        qed
        then show ?thesis by (intro disjI2)
      qed
    qed
  qed
qed

lemma rejected_part_001:
  "checks env cfg req s = (Inl e, s1) \<Longrightarrow> handlerUploadVideo_part_001 env cfg req s = (Inl e, s)"
  using checks_state [of env cfg req s "Inl e" s1]
  by (simp add: handlerUploadVideo_part_001_def await_def)

lemma rejected_videos_ts:
  "checks env cfg req s = (Inl e, s1) \<Longrightarrow> handlerUploadVideo_videos_ts env cfg req s = (Inl e, s)"
  using checks_state [of env cfg req s "Inl e" s1]
  by (simp add: handlerUploadVideo_videos_ts_def await_def)


lemma MAX_UPLOAD_SIZE_eq: "MAX_UPLOAD_SIZE = 2 ^ 30"
  by (simp add: MAX_UPLOAD_SIZE_def)

lemmas eval_defs = handlerUploadVideo_part_001_def handlerUploadVideo_videos_ts_def checks_def
  step_defs io_defs new_events_def Let_def path_join_def path_normalize_def outputFilePath_of_def
  s3_url_def respondWithJSON_def mediaTypeToExt_def MAX_UPLOAD_SIZE_eq
  cfg0_def video0_def file0_def req0_def env0_def s0_def env_mallory_def req_with_def env_probe_fails_def
  file_mov_def file_1GiB_def file_1GiB_plus_1_def env_s3_fails_def


section \<open>Evaluation of the arithmetic\<close>

lemma bitlen_numeral: "bitlen 0 = 0" "bitlen (Suc 0) = Suc 0" "bitlen 1 = Suc 0"
  "bitlen (numeral k) = Suc (bitlen (numeral k div 2))"
  by (simp_all add: bitlen.simps)

lemma floor_numeral_div: "\<lfloor>(numeral a :: rat) / numeral b\<rfloor> = numeral a div numeral b"
  using floor_divide_of_int_eq [of "numeral a" "numeral b", where ?'a = rat] by simp

lemmas fl_eval = round_double_def rnd_def quantum_def ilog2_def round_half_even_def Let_def bitlen_numeral
  floor_numeral_div js_div_def js_sub_def signed_zero_def signed_inf_def

lemma lit_0_1_eq: "lit_0_1 = Num (3602879701896397 / 36028797018963968)"
  by (simp add: lit_0_1_def fl_eval)

lemma sixteen_ninths: "js_div (Num 16) (Num 9) = Num (2001599834386887 / 1125899906842624)"
  by (simp add: fl_eval)

lemma nine_sixteenths: "js_div (Num 9) (Num 16) = Num (9 / 16)"
  by (simp add: fl_eval)

lemma classify_1920_1080: "classify (Num 1920) (Num 1080) = Landscape"
  by (simp add: classify_def lit_0_1_eq fl_eval)

lemma classify_151_90: "classify (Num 151) (Num 90) = Landscape"
  by (simp add: classify_def lit_0_1_eq sixteen_ninths nine_sixteenths fl_eval)

lemma classify_169_90: "classify (Num 169) (Num 90) = Other"
  by (simp add: classify_def lit_0_1_eq sixteen_ninths nine_sixteenths fl_eval)

lemma classify_53_80: "classify (Num 53) (Num 80) = Portrait"
  by (simp add: classify_def lit_0_1_eq sixteen_ninths nine_sixteenths fl_eval)

lemma classify_37_80: "classify (Num 37) (Num 80) = Portrait"
  by (simp add: classify_def lit_0_1_eq sixteen_ninths nine_sixteenths fl_eval)

lemma spec_classify_boundaries:
  "spec_classify 151 90 = Other" "spec_classify 169 90 = Other"
  "spec_classify 53 80 = Other" "spec_classify 37 80 = Other"
  by (simp_all add: spec_classify_def)

lemma new_events_same: "new_events s s = []"
  by (simp add: new_events_def)

lemma upload_handler_cases:
  assumes "h = handlerUploadVideo_part_001 \<or> h = handlerUploadVideo_videos_ts"
    and "h env cfg req s = (r, s')"
  obtains (rejected) e where "checks env cfg req s = (Inl e, s)" "r = Inl e" "s' = s"
        | (ingest) videoId video videoFile where
            "checks env cfg req s = (Inr (videoId, video, videoFile), s)"
proof -
  obtain cr s1 where ck: "checks env cfg req s = (cr, s1)"
    by (cases "checks env cfg req s")
  have s1: "s1 = s" using checks_state [OF ck] .
  show ?thesis
  proof (cases cr)
    case (Inl e)
    with ck s1 have c: "checks env cfg req s = (Inl e, s)" by simp
    with assms rejected_part_001 [OF c] rejected_videos_ts [OF c]
    have "r = Inl e" "s' = s" by auto
    with c show ?thesis by (rule rejected)
  next
    case (Inr t)
    obtain videoId video videoFile where "t = (videoId, video, videoFile)" by (cases t)
    with ck Inr s1 show ?thesis by (auto intro: ingest)
  qed
qed

lemma checks_forbidden:
  assumes "params_videoId req = Some videoId" "videoId \<noteq> []"
    and "getBearerToken env (headers req) = Inr token"
    and "validateJWT env token (jwtSecret cfg) = Inr user"
    and "db s videoId = Some video" "userID video \<noteq> user"
  shows "checks env cfg req s = (Inl (UserForbiddenError ''Forbidden access to the video''), s)"
  using assms by (simp add: checks_def step_defs)

lemma checks_file:
  assumes "params_videoId req = Some videoId" "videoId \<noteq> []"
    and "getBearerToken env (headers req) = Inr token"
    and "validateJWT env token (jwtSecret cfg) = Inr (userID video)"
    and "db s videoId = Some video"
    and "formData req = Inr form" "form ''video'' = Some (FormFile videoFile)"
  shows "checks env cfg req s =
     (if 2 ^ 30 < size_File videoFile then
        Inl (BadRequestError ''Video file exceeds the maximum allowed size of 1GB'')
      else if type_File videoFile \<noteq> ''video/mp4'' then
        Inl (BadRequestError ''Invalid file type. Only MP4 allowed.'')
      else Inr (videoId, video, videoFile), s)"
proof -
  have "(MAX_UPLOAD_SIZE < int (size_File videoFile)) = (2 ^ 30 < size_File videoFile)"
    unfolding MAX_UPLOAD_SIZE_eq by (metis of_nat_less_iff of_nat_numeral of_nat_power)
  with assms show ?thesis by (simp add: checks_def step_defs)
qed

lemma base64url_32:
  "base64url [0, 1, 2, 3, 4, 5, 6, 7, 8, 9, 10, 11, 12, 13, 14, 15, 16, 17, 18, 19, 20, 21, 22,
              23, 24, 25, 26, 27, 28, 29, 30, 31] = ''AAECAwQFBgcICQoLDA0ODxAREhMUFRYXGBkaGxwdHh8''"
  by (simp add: b64_def base64url_alphabet_def Let_def)

lemma run0_events:
  "new_events s0 (snd (handlerUploadVideo_part_001 env0 cfg0 req0 s0)) =
    [Write ''/tmp/v1.mp4'' True, Probe ''/tmp/v1.mp4'' True,
     Rewrite ''/tmp/v1.mp4'' ''/tmp/v1.processed.mp4'' True,
     Upload ''landscape/v1.mp4'' ''/tmp/v1.processed.mp4'' ''video/mp4'' True,
     Update (video0\<lparr>videoURL :=
       Some ''https://tubely.s3.us-east-2.amazonaws.com/landscape/v1.mp4''\<rparr>) True,
     Remove ''/tmp/v1.mp4'' True, Remove ''/tmp/v1.mp4.processed.mp4'' True]"
  by (simp add: eval_defs classify_1920_1080)

lemma run0_videos_ts_events:
  "new_events s0 (snd (handlerUploadVideo_videos_ts env0 cfg0 req0 s0)) =
    [Write ''/tmp/v1.mp4'' True,
     Upload ''AAECAwQFBgcICQoLDA0ODxAREhMUFRYXGBkaGxwdHh8.mp4'' ''/tmp/v1.mp4'' ''video/mp4'' True,
     Update (video0\<lparr>videoURL := Some
       ''https://tubely.s3.us-east-2.amazonaws.com/AAECAwQFBgcICQoLDA0ODxAREhMUFRYXGBkaGxwdHh8.mp4''\<rparr>)
       True,
     Remove ''/tmp/v1.mp4'' True]"
  by (simp add: eval_defs base64url_32 del: base64url.simps)

lemma run0_result:
  "fst (handlerUploadVideo_part_001 env0 cfg0 req0 s0) =
     Inr (respondWithJSON 200 (video0\<lparr>videoURL :=
       Some ''https://tubely.s3.us-east-2.amazonaws.com/landscape/v1.mp4''\<rparr>))"
  by (simp add: eval_defs classify_1920_1080)

lemma run0_fs:
  "fs (snd (handlerUploadVideo_part_001 env0 cfg0 req0 s0)) ''/tmp/v1.processed.mp4'' = Some [1, 2, 3]"
  "fs (snd (handlerUploadVideo_part_001 env0 cfg0 req0 s0)) ''/tmp/v1.mp4'' = None"
  by (simp_all add: eval_defs classify_1920_1080)

lemma run0_videos_ts_result:
  "\<not> isl (fst (handlerUploadVideo_videos_ts env0 cfg0 req0 s0))"
  by (simp add: eval_defs base64url_32 del: base64url.simps)

lemma run0_probe_fails:
  "new_events s0 (snd (handlerUploadVideo_part_001 env_probe_fails cfg0 req0 s0)) =
     [Write ''/tmp/v1.mp4'' True, Probe ''/tmp/v1.mp4'' False]"
  "fst (handlerUploadVideo_part_001 env_probe_fails cfg0 req0 s0) =
     Inl (Error ''ffprobe error: moov atom not found'')"
  "fs (snd (handlerUploadVideo_part_001 env_probe_fails cfg0 req0 s0)) ''/tmp/v1.mp4'' = Some [1, 2, 3]"
  by (simp_all add: eval_defs)

lemma run0_s3_fails:
  "new_events s0 (snd (handlerUploadVideo_part_001 env_s3_fails cfg0 req0 s0)) =
     [Write ''/tmp/v1.mp4'' True, Probe ''/tmp/v1.mp4'' True,
      Rewrite ''/tmp/v1.mp4'' ''/tmp/v1.processed.mp4'' True,
      Upload ''landscape/v1.mp4'' ''/tmp/v1.processed.mp4'' ''video/mp4'' False]"
  "db (snd (handlerUploadVideo_part_001 env_s3_fails cfg0 req0 s0)) = db s0"
  by (simp_all add: eval_defs classify_1920_1080)

lemma path0: "path_join ''/tmp'' (''v1'' @ ''.mp4'') = ''/tmp/v1.mp4''"
  by (simp add: path_join_def path_normalize_def Let_def)

section \<open>Properties of the paths\<close>

lemma split_on_no_sep: "c \<notin> set ys \<Longrightarrow> split_on c ys = [ys]"
  by (induction ys) auto

lemma split_on_not_Nil [simp]: "split_on c xs \<noteq> []"
  by (induction xs) (auto split: list.splits)

lemma split_on_hd: "\<exists>rest. split_on c xs = takeWhile (\<lambda>x. x \<noteq> c) xs # rest"
  by (induction xs) (auto split: list.splits)

lemma split_on_append_last:
  "c \<notin> set ys \<Longrightarrow>
     split_on c (xs @ ys) = butlast (split_on c xs) @ [last (split_on c xs) @ ys]"
proof (induction xs)
  case Nil
  then show ?case by (simp add: split_on_no_sep)
next
  case (Cons x xs)
  then show ?case by (auto split: list.splits)
qed

lemma normalizeString_snoc:
  "seg \<noteq> [] \<Longrightarrow> seg \<noteq> ''.'' \<Longrightarrow> seg \<noteq> ''..'' \<Longrightarrow>
     normalizeString b res (segs @ [seg]) = normalizeString b res segs @ [seg]"
  by (induction segs arbitrary: res) auto

lemma join_with_last: "xs \<noteq> [] \<Longrightarrow> set (last xs) \<subseteq> set (join_with sep xs)"
  by (induction sep xs rule: join_with.induct) auto

lemma last_seg_ok:
  "xs @ ''.mp4'' \<noteq> []" "xs @ ''.mp4'' \<noteq> ''.''" "xs @ ''.mp4'' \<noteq> ''..''"
proof -
  have "length (xs @ ''.mp4'') \<ge> 4" by simp
  then show "xs @ ''.mp4'' \<noteq> []" "xs @ ''.mp4'' \<noteq> ''.''" "xs @ ''.mp4'' \<noteq> ''..''"
    by (auto simp del: length_append dest!: arg_cong [where f = length])
qed


lemma staged_path_has_dot: "CHR ''.'' \<in> set (path_join ''/tmp'' (videoId @ ''.mp4''))"
proof -
  define path where "path = ''/tmp/'' @ videoId @ ''.mp4''"
  define l where "l = last (split_on CHR ''/'' (''/tmp/'' @ videoId))"
  define segs where "segs = butlast (split_on CHR ''/'' (''/tmp/'' @ videoId))"
  define joined where
    "joined = join_with ''/'' (normalizeString False [] (split_on CHR ''/'' path))"
  have "CHR ''/'' \<notin> set ''.mp4''" by simp
  from split_on_append_last [OF this, of "''/tmp/'' @ videoId"]
  have sp: "split_on CHR ''/'' path = segs @ [l @ ''.mp4'']"
    by (simp add: path_def l_def segs_def)
  have n: "normalizeString False [] (split_on CHR ''/'' path) =
      normalizeString False [] segs @ [l @ ''.mp4'']"
    unfolding sp by (rule normalizeString_snoc [OF last_seg_ok])
  have "set (l @ ''.mp4'') \<subseteq> set joined"
    using join_with_last [of "normalizeString False [] segs @ [l @ ''.mp4'']" "''/''"]
    unfolding joined_def n by simp
  then have d: "CHR ''.'' \<in> set joined" by auto
  then have ne: "joined \<noteq> []" by auto
  have hd: "hd path = CHR ''/''" and lst: "last path \<noteq> CHR ''/''" and pne: "path \<noteq> []"
    by (simp_all add: path_def)
  have "path_join ''/tmp'' (videoId @ ''.mp4'') = path_normalize path"
    by (simp add: path_join_def path_def)
  also have "\<dots> = ''/'' @ joined"
    using hd lst pne ne unfolding joined_def
    by (simp add: path_normalize_def Let_def)
  finally show ?thesis using d by simp
qed


lemma outputFilePath_of_eq:
  "outputFilePath_of p = takeWhile (\<lambda>c. c \<noteq> CHR ''.'') p @ ''.processed.mp4''"
  using split_on_hd [of "CHR ''.''" p] by (auto simp: outputFilePath_of_def)

lemma takeWhile_shorter: "c \<in> set p \<Longrightarrow> length (takeWhile (\<lambda>x. x \<noteq> c) p) < length p"
  by (induction p) auto

lemma js_div_by_zero:
  assumes "js_is_zero h"
  shows "js_div w h = NaN \<or> js_div w h = PosInf \<or> js_div w h = NegInf"
  using assms by (cases h; cases w) (auto simp: js_div_def signed_inf_def)

lemma js_sub_non_finite:
  "js_sub NaN (Num c) = NaN" "js_sub PosInf (Num c) = PosInf" "js_sub NegInf (Num c) = NegInf"
  by (simp_all add: js_sub_def)

lemma js_lt_non_finite: "\<not> js_lt NaN t" "\<not> js_lt PosInf t"
  by (cases t; simp)+

lemma non_finite_not_within:
  assumes "r = NaN \<or> r = PosInf \<or> r = NegInf"
  shows "\<not> js_lt (js_abs (js_sub r (Num c))) t"
  using assms by (auto simp: js_sub_non_finite js_lt_non_finite)

section \<open>Properties of the rounding\<close>

lemma bitlen_pos: "0 < n \<Longrightarrow> bitlen n = Suc (bitlen (n div 2))"
  by (simp add: bitlen.simps [of n])

lemma bitlen_bounds: "0 < n \<Longrightarrow> 2 ^ (bitlen n - 1) \<le> n \<and> n < 2 ^ bitlen n"
proof (induction n rule: bitlen.induct)
  case (1 n)
  show ?case
  proof (cases "n div 2 = 0")
    case True
    with "1.prems" have "n = 1" by (cases n) auto
    then show ?thesis by (simp add: bitlen.simps)
  next
    case False
    then have pos: "0 < n div 2" by simp
    from "1.prems" have "n \<noteq> 0" by simp
    from "1.IH" [OF this pos]
    have IH: "2 ^ (bitlen (n div 2) - 1) \<le> n div 2" "n div 2 < 2 ^ bitlen (n div 2)"
      by simp_all
    have b: "bitlen n = Suc (bitlen (n div 2))" using "1.prems" by (rule bitlen_pos)
    obtain j where j: "bitlen (n div 2) = Suc j"
      using bitlen_pos [OF pos] by simp
    have "(2::nat) ^ (bitlen n - 1) = 2 * 2 ^ (bitlen (n div 2) - 1)"
      unfolding b j by simp
    also have "\<dots> \<le> 2 * (n div 2)" using IH(1) by simp
    also have "\<dots> \<le> n" by simp
    finally have lo: "2 ^ (bitlen n - 1) \<le> n" .
    have "n < 2 * (n div 2 + 1)" by simp
    also have "\<dots> \<le> 2 * 2 ^ bitlen (n div 2)" using IH(2) by simp
    also have "\<dots> = 2 ^ bitlen n" unfolding b by simp
    finally have "n < 2 ^ bitlen n" .
    with lo show ?thesis ..
  qed
qed

lemma floor_nat_bounds:
  fixes y :: rat
  assumes "1 \<le> y"
  shows "of_nat (nat \<lfloor>y\<rfloor>) \<le> y" "y < of_nat (nat \<lfloor>y\<rfloor>) + 1" "0 < nat \<lfloor>y\<rfloor>"
proof -
  have f1: "1 \<le> \<lfloor>y\<rfloor>" using assms(1) by simp
  then have e: "(of_nat (nat \<lfloor>y\<rfloor>) :: rat) = of_int \<lfloor>y\<rfloor>" by simp
  show "of_nat (nat \<lfloor>y\<rfloor>) \<le> y" unfolding e by (rule of_int_floor_le)
  show "y < of_nat (nat \<lfloor>y\<rfloor>) + 1" unfolding e using floor_correct [of y] by simp
  show "0 < nat \<lfloor>y\<rfloor>" using f1 by simp
qed

lemma floor_bitlen:
  fixes y :: rat
  assumes "1 \<le> y"
  defines "k \<equiv> bitlen (nat \<lfloor>y\<rfloor>) - 1"
  shows "2 ^ k \<le> y" and "y < 2 ^ Suc k" and "int (bitlen (nat \<lfloor>y\<rfloor>)) - 1 = int k"
proof -
  define n where "n = nat \<lfloor>y\<rfloor>"
  note ny = floor_nat_bounds [OF assms(1), folded n_def]
  note bb = bitlen_bounds [OF ny(3)]
  obtain j where j: "bitlen n = Suc j" using bitlen_pos [OF ny(3)] by simp
  have kj: "k = j" unfolding k_def n_def [symmetric] j by simp
  from bb have "2 ^ j \<le> n" "n + 1 \<le> 2 ^ Suc j" unfolding j by simp_all
  then have "(of_nat (2 ^ j) :: rat) \<le> of_nat n" "(of_nat (n + 1) :: rat) \<le> of_nat (2 ^ Suc j)"
    unfolding of_nat_le_iff by simp_all
  then have "(2 :: rat) ^ j \<le> of_nat n" "(of_nat n + 1 :: rat) \<le> 2 ^ Suc j"
    by simp_all
  with ny(1,2) show "2 ^ k \<le> y" and "y < 2 ^ Suc k" unfolding kj by linarith+
  show "int (bitlen (nat \<lfloor>y\<rfloor>)) - 1 = int k"
    unfolding kj n_def [symmetric] j by simp
qed

lemma powi_Suc: "2 powi (int k + 1) = (2::rat) ^ Suc k"
proof -
  have "int k + 1 = int (Suc k)" by simp
  then show ?thesis by (simp only: power_int_of_nat)
qed

lemma powi_neg: "(2::rat) powi (- int k) = 1 / 2 ^ k"
  by (simp only: power_int_minus_divide power_int_of_nat)

lemma powi_neg_Suc: "(2::rat) powi (- int k - 1) = 1 / 2 ^ Suc k"
proof -
  have "- int k - 1 = - int (Suc k)" by simp
  then show ?thesis by (simp only: power_int_minus_divide power_int_of_nat)
qed

lemma ilog2_bounds:
  assumes "0 < x"
  shows "2 powi ilog2 x \<le> x \<and> x < 2 powi (ilog2 x + 1)"
proof (cases "1 \<le> x")
  case True
  define k where "k = bitlen (nat \<lfloor>x\<rfloor>) - 1"
  note f = floor_bitlen [OF True, folded k_def]
  have il: "ilog2 x = int k" using True f(3) by (simp add: ilog2_def)
  from f(1,2) show ?thesis unfolding il powi_Suc by simp
next
  case False
  with assms have y1: "1 \<le> 1 / x" by simp
  define k where "k = bitlen (nat \<lfloor>1 / x\<rfloor>) - 1"
  note f = floor_bitlen [OF y1, folded k_def]
  have up: "x \<le> 1 / 2 ^ k"
    using f(1) assms by (simp add: field_simps)
  have lo: "1 / 2 ^ Suc k < x"
    using f(2) assms by (simp add: field_simps)
  show ?thesis
  proof (cases "x = 2 powi (- int k)")
    case True
    then have il: "ilog2 x = - int k" using False f(3) by (simp add: ilog2_def Let_def)
    have "(2::rat) powi (- int k) < 2 powi (- int k + 1)"
      by (rule power_int_strict_increasing) simp_all
    with True show ?thesis unfolding il by simp
  next
    case ne: False
    then have il: "ilog2 x = - int k - 1" using False f(3) by (simp add: ilog2_def Let_def)
    have e: "- int k - 1 + 1 = - int k" by simp
    from lo up ne show ?thesis unfolding il e powi_neg powi_neg_Suc by simp
  qed
qed

lemma ilog2_mono:
  assumes "0 < x" "x \<le> y"
  shows "ilog2 x \<le> ilog2 y"
proof (rule ccontr)
  assume "\<not> ilog2 x \<le> ilog2 y"
  then have "ilog2 y + 1 \<le> ilog2 x" by simp
  then have "(2::rat) powi (ilog2 y + 1) \<le> 2 powi ilog2 x"
    by (rule power_int_increasing) simp
  also have "\<dots> \<le> x" using ilog2_bounds [OF assms(1)] by simp
  also have "\<dots> \<le> y" by (rule assms(2))
  also have "\<dots> < 2 powi (ilog2 y + 1)" using ilog2_bounds [of y] assms by simp
  finally show False by simp
qed

lemma round_half_even_cases:
  "round_half_even x = \<lfloor>x\<rfloor> \<or> round_half_even x = \<lfloor>x\<rfloor> + 1"
  by (simp add: round_half_even_def Let_def)

lemma round_half_even_of_int [simp]: "round_half_even (of_int n) = n"
  by (simp add: round_half_even_def Let_def)

lemma round_half_even_mono:
  assumes "x \<le> y"
  shows "round_half_even x \<le> round_half_even y"
proof (cases "\<lfloor>x\<rfloor> = \<lfloor>y\<rfloor>")
  case True
  with assms show ?thesis
    by (auto simp: round_half_even_def Let_def)
next
  case False
  with assms have "\<lfloor>x\<rfloor> + 1 \<le> \<lfloor>y\<rfloor>" using floor_mono [OF assms] by linarith
  with round_half_even_cases [of x] round_half_even_cases [of y] show ?thesis by linarith
qed


lemma round_half_even_le_int: "x \<le> of_int n \<Longrightarrow> round_half_even x \<le> n"
  using round_half_even_mono [of x "of_int n"] unfolding round_half_even_of_int .

lemma round_half_even_ge_int: "of_int n \<le> x \<Longrightarrow> n \<le> round_half_even x"
  using round_half_even_mono [of "of_int n" x] unfolding round_half_even_of_int .

lemma quantum_pos: "0 < quantum a"
  by (simp add: quantum_def)

lemma rnd_nonneg: "0 \<le> a \<Longrightarrow> 0 \<le> rnd a"
proof -
  assume "0 \<le> a"
  then have "0 \<le> a / quantum a" using quantum_pos [of a] by simp
  then have "of_int 0 \<le> a / quantum a" by simp
  then have "0 \<le> round_half_even (a / quantum a)" by (rule round_half_even_ge_int)
  then show ?thesis unfolding rnd_def using quantum_pos [of a] by simp
qed

lemma rnd_mono:
  assumes "0 < x" "x \<le> y"
  shows "rnd x \<le> rnd y"
proof -
  define ex where "ex = max (ilog2 x - 52) (- 1074)"
  define ey where "ey = max (ilog2 y - 52) (- 1074)"
  have qx: "quantum x = 2 powi ex" and qy: "quantum y = 2 powi ey"
    by (simp_all add: quantum_def ex_def ey_def)
  have y: "0 < y" using assms by simp
  have le: "ex \<le> ey" using ilog2_mono [OF assms] unfolding ex_def ey_def by simp
  show ?thesis
  proof (cases "ex = ey")
    case True
    have "x / 2 powi ey \<le> y / 2 powi ey"
      using assms(2) by (simp add: divide_right_mono)
    from round_half_even_mono [OF this]
    have "(of_int (round_half_even (x / 2 powi ey)) :: rat) \<le>
        of_int (round_half_even (y / 2 powi ey))"
      by simp
    then show ?thesis unfolding rnd_def qx qy True
      by (simp add: mult_right_mono)
  next
    case False
    with le have lt: "ex < ey" by simp
    have ey': "ey = ilog2 y - 52" using lt unfolding ex_def ey_def by linarith
    have ix: "ilog2 x + 1 \<le> ilog2 y" using lt unfolding ex_def ey_def by linarith
    define d where "d = nat (ilog2 y - ex)"
    have dpos: "0 \<le> ilog2 y - ex" using lt ey' by simp
    have d: "int d = ilog2 y - ex" using dpos by (simp add: d_def)
    have "x < 2 powi (ilog2 x + 1)" using ilog2_bounds [OF assms(1)] by simp
    also have "\<dots> \<le> 2 powi ilog2 y" using ix by (rule power_int_increasing) simp
    finally have xlt: "x < 2 powi ilog2 y" .
    have split: "(2::rat) powi ilog2 y = 2 ^ d * 2 powi ex"
    proof -
      have "ilog2 y = int d + ex" using d by simp
      then have "(2::rat) powi ilog2 y = 2 powi (int d + ex)" by simp
      also have "\<dots> = 2 powi int d * 2 powi ex" by (rule power_int_add) simp
      finally show ?thesis by simp
    qed
    have "x / 2 powi ex \<le> 2 ^ d"
      using xlt unfolding split by (simp add: field_simps)
    then have "x / 2 powi ex \<le> of_int (2 ^ d)" by simp
    then have "round_half_even (x / 2 powi ex) \<le> 2 ^ d"
      by (rule round_half_even_le_int)
    then have "(of_int (round_half_even (x / 2 powi ex)) :: rat) \<le> of_int (2 ^ d)"
      by (subst of_int_le_iff)
    then have "rnd x \<le> 2 ^ d * 2 powi ex"
      unfolding rnd_def qx by (simp add: mult_right_mono)
    then have upper: "rnd x \<le> 2 powi ilog2 y" unfolding split .
    have split2: "(2::rat) powi ilog2 y = 2 ^ 52 * 2 powi ey"
    proof -
      have "ilog2 y = 52 + ey" using ey' by simp
      then have "(2::rat) powi ilog2 y = 2 powi (52 + ey)" by simp
      also have "\<dots> = 2 powi 52 * 2 powi ey" by (rule power_int_add) simp
      finally show ?thesis by simp
    qed
    have "2 powi ilog2 y \<le> y" using ilog2_bounds [OF y] by simp
    then have "2 ^ 52 \<le> y / 2 powi ey"
      unfolding split2 by (simp add: field_simps)
    then have "of_int (2 ^ 52) \<le> y / 2 powi ey" by simp
    then have "2 ^ 52 \<le> round_half_even (y / 2 powi ey)"
      by (rule round_half_even_ge_int)
    then have "(of_int (2 ^ 52) :: rat) \<le> of_int (round_half_even (y / 2 powi ey))"
      by (subst of_int_le_iff)
    then have "2 ^ 52 * 2 powi ey \<le> rnd y"
      unfolding rnd_def qy by (simp add: mult_right_mono)
    then have "2 powi ilog2 y \<le> rnd y" unfolding split2 .
    with upper show ?thesis by simp
  qed
qed

lemma round_double_pos:
  "0 < x \<Longrightarrow> round_double x = (if 2 powi 1024 \<le> rnd x then PosInf else Num (rnd x))"
  by (simp add: round_double_def Let_def)

lemma abs_round_double_lt:
  "js_lt (js_abs (round_double x)) (Num t) \<longleftrightarrow>
     (if x = 0 then 0 < t else rnd \<bar>x\<bar> < 2 powi 1024 \<and> rnd \<bar>x\<bar> < t)"
proof (cases "x = 0")
  case True
  then show ?thesis by (simp add: round_double_def)
next
  case False
  then have "0 \<le> rnd \<bar>x\<bar>" by (intro rnd_nonneg) simp
  with False show ?thesis by (auto simp: round_double_def Let_def)
qed

lemma js_sub_Num: "c \<noteq> 0 \<Longrightarrow> js_sub (Num r) (Num c) = round_double (r - c)"
  by (simp add: js_sub_def)

lemma not_within:
  assumes "0 < b" "b \<le> \<bar>r - c\<bar>" "t \<le> rnd b" "c \<noteq> 0"
  shows "\<not> js_lt (js_abs (js_sub (Num r) (Num c))) (Num t)"
proof -
  from assms(1,2) have "r - c \<noteq> 0" by auto
  moreover from rnd_mono [OF assms(1,2)] assms(3) have "t \<le> rnd \<bar>r - c\<bar>" by simp
  ultimately show ?thesis
    unfolding js_sub_Num [OF assms(4)] abs_round_double_lt by simp
qed

lemma within:
  assumes "\<bar>r - c\<bar> \<le> b" "rnd b < t" "rnd b < 2 powi 1024" "0 < t" "c \<noteq> 0"
  shows "js_lt (js_abs (js_sub (Num r) (Num c))) (Num t)"
proof (cases "r - c = 0")
  case True
  then show ?thesis unfolding js_sub_Num [OF assms(5)] abs_round_double_lt
    using assms(4) by simp
next
  case False
  then have "0 < \<bar>r - c\<bar>" by simp
  from rnd_mono [OF this assms(1)] assms(2,3) False show ?thesis
    unfolding js_sub_Num [OF assms(5)] abs_round_double_lt by simp
qed


lemmas rnd_eval = rnd_def quantum_def ilog2_def round_half_even_def Let_def bitlen_numeral
  floor_numeral_div

lemma rnd_checkpoints:
  "rnd (169 / 90) = 4228379650142299 / 2251799813685248"
  "rnd (362924736511 / 193273528320) = 528547456266331 / 281474976710656"
  "rnd (151 / 90) = 7556039374810499 / 4503599627370496"
  "rnd (324270030847 / 193273528320) = 7556039374787197 / 4503599627370496"
  "rnd (22763326669 / 34359738368) = 22763326669 / 34359738368"
  "rnd (53 / 80) = 5967269506265907 / 9007199254740992"
  "rnd (37 / 80) = 4165829655317709 / 9007199254740992"
  "rnd (15891378995 / 34359738368) = 15891378995 / 34359738368"
  by (simp_all add: rnd_eval)

lemma rnd_margins:
  "3602879701896397 / 36028797018963968 \<le> rnd (225179981368525 / 2251799813685248)"
  "3602879701896397 / 36028797018963968 \<le> rnd (2961742254944347 / 2251799813685248)"
  "rnd (450359962737049 / 4503599627370496) < 3602879701896397 / 36028797018963968"
  "3602879701896397 / 36028797018963968 \<le> rnd (450359962760351 / 4503599627370496)"
  "3602879701896397 / 36028797018963968 \<le> rnd (3435973837 / 34359738368)"
  "3602879701896397 / 36028797018963968 \<le> rnd (10045529168829189 / 9007199254740992)"
  "rnd (900719925474099 / 9007199254740992) < 3602879701896397 / 36028797018963968"
  "3602879701896397 / 36028797018963968 \<le> rnd (1480871127478727 / 1125899906842624)"
  "3602879701896397 / 36028797018963968 \<le> rnd (3435973837 / 34359738368)"
  by (simp_all add: rnd_eval)


lemma powi_1024_big: "(x::rat) < 2 \<Longrightarrow> x < 2 powi 1024"
proof -
  assume "x < 2"
  also have "(2::rat) = 2 powi 1" by simp
  also have "\<dots> \<le> 2 powi 1024" by (rule power_int_increasing) simp_all
  finally show ?thesis .
qed

lemma above_bands:
  assumes "4228379650142299 / 2251799813685248 \<le> r"
  shows "\<not> js_lt (js_abs (js_sub (Num r) (Num (2001599834386887 / 1125899906842624)))) (Num (3602879701896397 / 36028797018963968))"
    and "\<not> js_lt (js_abs (js_sub (Num r) (Num (9 / 16)))) (Num (3602879701896397 / 36028797018963968))"
proof -
  show "\<not> js_lt (js_abs (js_sub (Num r) (Num (2001599834386887 / 1125899906842624)))) (Num (3602879701896397 / 36028797018963968))"
  proof (rule not_within [where b = "225179981368525 / 2251799813685248"])
    show "225179981368525 / 2251799813685248 \<le> \<bar>r - 2001599834386887 / 1125899906842624\<bar>" using assms by linarith
    show "3602879701896397 / 36028797018963968 \<le> rnd (225179981368525 / 2251799813685248)" by (rule rnd_margins(1))
  qed simp_all
  show "\<not> js_lt (js_abs (js_sub (Num r) (Num (9 / 16)))) (Num (3602879701896397 / 36028797018963968))"
  proof (rule not_within [where b = "2961742254944347 / 2251799813685248"])
    show "2961742254944347 / 2251799813685248 \<le> \<bar>r - 9 / 16\<bar>" using assms by linarith
    show "3602879701896397 / 36028797018963968 \<le> rnd (2961742254944347 / 2251799813685248)" by (rule rnd_margins(2))
  qed simp_all
qed

lemma landscape_band:
  assumes "7556039374810499 / 4503599627370496 \<le> r" "r \<le> 528547456266331 / 281474976710656"
  shows "js_lt (js_abs (js_sub (Num r) (Num (2001599834386887 / 1125899906842624)))) (Num (3602879701896397 / 36028797018963968))"
proof -
  show "js_lt (js_abs (js_sub (Num r) (Num (2001599834386887 / 1125899906842624)))) (Num (3602879701896397 / 36028797018963968))"
  proof (rule within [where b = "450359962737049 / 4503599627370496"])
    show "\<bar>r - 2001599834386887 / 1125899906842624\<bar> \<le> 450359962737049 / 4503599627370496" using assms by linarith
    show lt: "rnd (450359962737049 / 4503599627370496) < 3602879701896397 / 36028797018963968" by (rule rnd_margins(3))
    show "rnd (450359962737049 / 4503599627370496) < 2 powi 1024" by (rule powi_1024_big) (use lt in linarith)
  qed simp_all
qed

lemma middle_band:
  assumes "22763326669 / 34359738368 \<le> r" "r \<le> 7556039374787197 / 4503599627370496"
  shows "\<not> js_lt (js_abs (js_sub (Num r) (Num (2001599834386887 / 1125899906842624)))) (Num (3602879701896397 / 36028797018963968))"
    and "\<not> js_lt (js_abs (js_sub (Num r) (Num (9 / 16)))) (Num (3602879701896397 / 36028797018963968))"
proof -
  show "\<not> js_lt (js_abs (js_sub (Num r) (Num (2001599834386887 / 1125899906842624)))) (Num (3602879701896397 / 36028797018963968))"
  proof (rule not_within [where b = "450359962760351 / 4503599627370496"])
    show "450359962760351 / 4503599627370496 \<le> \<bar>r - 2001599834386887 / 1125899906842624\<bar>" using assms by linarith
    show "3602879701896397 / 36028797018963968 \<le> rnd (450359962760351 / 4503599627370496)" by (rule rnd_margins(4))
  qed simp_all
  show "\<not> js_lt (js_abs (js_sub (Num r) (Num (9 / 16)))) (Num (3602879701896397 / 36028797018963968))"
  proof (rule not_within [where b = "3435973837 / 34359738368"])
    show "3435973837 / 34359738368 \<le> \<bar>r - 9 / 16\<bar>" using assms by linarith
    show "3602879701896397 / 36028797018963968 \<le> rnd (3435973837 / 34359738368)" by (rule rnd_margins(5))
  qed simp_all
qed

lemma portrait_band:
  assumes "4165829655317709 / 9007199254740992 \<le> r" "r \<le> 5967269506265907 / 9007199254740992"
  shows "\<not> js_lt (js_abs (js_sub (Num r) (Num (2001599834386887 / 1125899906842624)))) (Num (3602879701896397 / 36028797018963968))"
    and "js_lt (js_abs (js_sub (Num r) (Num (9 / 16)))) (Num (3602879701896397 / 36028797018963968))"
proof -
  show "\<not> js_lt (js_abs (js_sub (Num r) (Num (2001599834386887 / 1125899906842624)))) (Num (3602879701896397 / 36028797018963968))"
  proof (rule not_within [where b = "10045529168829189 / 9007199254740992"])
    show "10045529168829189 / 9007199254740992 \<le> \<bar>r - 2001599834386887 / 1125899906842624\<bar>" using assms by linarith
    show "3602879701896397 / 36028797018963968 \<le> rnd (10045529168829189 / 9007199254740992)" by (rule rnd_margins(6))
  qed simp_all
  show "js_lt (js_abs (js_sub (Num r) (Num (9 / 16)))) (Num (3602879701896397 / 36028797018963968))"
  proof (rule within [where b = "900719925474099 / 9007199254740992"])
    show "\<bar>r - 9 / 16\<bar> \<le> 900719925474099 / 9007199254740992" using assms by linarith
    show lt: "rnd (900719925474099 / 9007199254740992) < 3602879701896397 / 36028797018963968" by (rule rnd_margins(7))
    show "rnd (900719925474099 / 9007199254740992) < 2 powi 1024" by (rule powi_1024_big) (use lt in linarith)
  qed simp_all
qed

lemma below_bands:
  assumes "0 \<le> r" "r \<le> 15891378995 / 34359738368"
  shows "\<not> js_lt (js_abs (js_sub (Num r) (Num (2001599834386887 / 1125899906842624)))) (Num (3602879701896397 / 36028797018963968))"
    and "\<not> js_lt (js_abs (js_sub (Num r) (Num (9 / 16)))) (Num (3602879701896397 / 36028797018963968))"
proof -
  show "\<not> js_lt (js_abs (js_sub (Num r) (Num (2001599834386887 / 1125899906842624)))) (Num (3602879701896397 / 36028797018963968))"
  proof (rule not_within [where b = "1480871127478727 / 1125899906842624"])
    show "1480871127478727 / 1125899906842624 \<le> \<bar>r - 2001599834386887 / 1125899906842624\<bar>" using assms by linarith
    show "3602879701896397 / 36028797018963968 \<le> rnd (1480871127478727 / 1125899906842624)" by (rule rnd_margins(8))
  qed simp_all
  show "\<not> js_lt (js_abs (js_sub (Num r) (Num (9 / 16)))) (Num (3602879701896397 / 36028797018963968))"
  proof (rule not_within [where b = "3435973837 / 34359738368"])
    show "3435973837 / 34359738368 \<le> \<bar>r - 9 / 16\<bar>" using assms by linarith
    show "3602879701896397 / 36028797018963968 \<le> rnd (3435973837 / 34359738368)" by (rule rnd_margins(9))
  qed simp_all
qed


lemma cross_margin:
  fixes W H A B :: rat
  assumes "0 < H" "0 < B" "W * B + 1 \<le> A * H"
  shows "W / H + 1 / (B * H) \<le> A / B"
proof -
  have "W / H + 1 / (B * H) = (W * B + 1) / (B * H)"
    using assms(1,2) by (simp add: field_simps)
  also have "\<dots> \<le> (A * H) / (B * H)"
    using assms by (intro divide_right_mono) simp_all
  also have "\<dots> = A / B" using assms(1) by simp
  finally show ?thesis .
qed

lemma margin_below:
  fixes w h a b :: nat
  assumes "0 < h" "h < 2 ^ 31" "0 < b"
    and "(of_nat w / of_nat h :: rat) < of_nat a / of_nat b"
  shows "(of_nat w / of_nat h :: rat) \<le> of_nat a / of_nat b - 1 / (of_nat b * 2 ^ 31)"
proof -
  from assms have "(of_nat w * of_nat b :: rat) < of_nat a * of_nat h"
    by (simp add: field_simps)
  then have "(of_nat (w * b) :: rat) < of_nat (a * h)" by simp
  then have "w * b < a * h" unfolding of_nat_less_iff .
  then have "w * b + 1 \<le> a * h" by simp
  then have "(of_nat (w * b + 1) :: rat) \<le> of_nat (a * h)" unfolding of_nat_le_iff .
  then have "(of_nat w * of_nat b + 1 :: rat) \<le> of_nat a * of_nat h" by simp
  then have 1: "(of_nat w / of_nat h :: rat) + 1 / (of_nat b * of_nat h) \<le> of_nat a / of_nat b"
    using assms(1,3) by (intro cross_margin) simp_all
  have "(of_nat h :: rat) \<le> of_nat (2 ^ 31)" using assms(2) unfolding of_nat_le_iff by simp
  then have "(of_nat h :: rat) \<le> 2 ^ 31" by simp
  then have "(of_nat b * of_nat h :: rat) \<le> of_nat b * 2 ^ 31"
    by (intro mult_left_mono) simp_all
  then have "1 / (of_nat b * 2 ^ 31) \<le> (1 / (of_nat b * of_nat h) :: rat)"
    using assms(1,3) by (intro divide_left_mono) simp_all
  with 1 show ?thesis by linarith
qed

lemma margin_above:
  fixes w h a b :: nat
  assumes "0 < h" "h < 2 ^ 31" "0 < b"
    and "(of_nat a / of_nat b :: rat) < of_nat w / of_nat h"
  shows "(of_nat a / of_nat b :: rat) + 1 / (of_nat b * 2 ^ 31) \<le> of_nat w / of_nat h"
proof -
  from assms have "(of_nat a * of_nat h :: rat) < of_nat w * of_nat b"
    by (simp add: field_simps)
  then have "(of_nat (a * h) :: rat) < of_nat (w * b)" by simp
  then have "a * h < w * b" unfolding of_nat_less_iff .
  then have "a * h + 1 \<le> w * b" by simp
  then have "(of_nat (a * h + 1) :: rat) \<le> of_nat (w * b)" unfolding of_nat_le_iff .
  then have "(of_nat a * of_nat h + 1 :: rat) \<le> of_nat w * of_nat b" by simp
  then have 1: "(of_nat a / of_nat b :: rat) + 1 / (of_nat b * of_nat h) \<le> of_nat w / of_nat h"
    using assms(1,3) by (subst mult.commute [of "of_nat b"], intro cross_margin) simp_all
  have "(of_nat h :: rat) \<le> of_nat (2 ^ 31)" using assms(2) unfolding of_nat_le_iff by simp
  then have "(of_nat h :: rat) \<le> 2 ^ 31" by simp
  then have "(of_nat b * of_nat h :: rat) \<le> of_nat b * 2 ^ 31"
    by (intro mult_left_mono) simp_all
  then have "1 / (of_nat b * 2 ^ 31) \<le> (1 / (of_nat b * of_nat h) :: rat)"
    using assms(1,3) by (intro divide_left_mono) simp_all
  with 1 show ?thesis by linarith
qed

lemma classify_finite:
  assumes "js_div a b = Num r"
  shows "classify a b =
     (if js_lt (js_abs (js_sub (Num r) (Num (2001599834386887 / 1125899906842624)))) (Num (3602879701896397 / 36028797018963968)) then Landscape
      else if js_lt (js_abs (js_sub (Num r) (Num (9 / 16)))) (Num (3602879701896397 / 36028797018963968)) then Portrait
      else Other)"
  using assms
  by (simp add: classify_def Let_def lit_0_1_eq sixteen_ninths nine_sixteenths
      del: js_lt.simps js_abs.simps)

lemma classify_overflow:
  assumes "js_div a b = PosInf"
  shows "classify a b = Other"
proof -
  have nf: "js_div a b = NaN \<or> js_div a b = PosInf \<or> js_div a b = NegInf"
    using assms by simp
  have "\<not> js_lt (js_abs (js_sub (js_div a b) (js_div (Num 16) (Num 9)))) lit_0_1"
    unfolding sixteen_ninths by (rule non_finite_not_within [OF nf])
  moreover have "\<not> js_lt (js_abs (js_sub (js_div a b) (js_div (Num 9) (Num 16)))) lit_0_1"
    unfolding nine_sixteenths by (rule non_finite_not_within [OF nf])
  ultimately show ?thesis by (simp add: classify_def Let_def)
qed

lemma js_div_nat:
  fixes w h :: nat
  assumes "0 < h"
  shows "js_div (Num (of_nat w)) (Num (of_nat h)) =
     (if w = 0 then Num 0
      else if 2 powi 1024 \<le> rnd (of_nat w / of_nat h) then PosInf
      else Num (rnd (of_nat w / of_nat h)))"
proof (cases "w = 0")
  case True
  with assms show ?thesis by (simp add: js_div_def signed_zero_def)
next
  case False
  with assms have "(0::rat) < of_nat w / of_nat h" by simp
  from round_double_pos [OF this] False assms show ?thesis
    by (simp add: js_div_def)
qed


section \<open>Properties of the encoding\<close>
















lemma b64_value_pad: "b64_value CHR ''='' = None" "b64_value CHR ''+'' = None"
  "b64_value CHR ''/'' = None"
  by (simp_all add: b64_value_def)

lemma base64url_vectors:
  "base64url [102] = ''Zg''" "base64url [102, 111] = ''Zm8''"
  "base64url [102, 111, 111, 98, 97, 114] = ''Zm9vYmFy''"
  "base64url [251, 255] = ''-_8''"
  by (simp_all add: b64_def base64url_alphabet_def Let_def)







section \<open>The claims\<close>

text \<open>
  C5. A request of an authenticated user who does not own the record fails with
  \<open>Forbidden\<close>, and a request of the owner whose file part declares a media type other
  than \<open>video/mp4\<close> fails with \<open>BadRequest\<close>; both leave the whole state as it was: no
  temporary file, no probe, no change of the record store.
\<close>

theorem rejected_before_staging:
  assumes "h = handlerUploadVideo_part_001 \<or> h = handlerUploadVideo_videos_ts"
    and "params_videoId req = Some videoId" "videoId \<noteq> []"
    and "getBearerToken env (headers req) = Inr token"
    and "validateJWT env token (jwtSecret cfg) = Inr user"
    and "db s videoId = Some video"
  shows "(userID video \<noteq> user \<longrightarrow>
            h env cfg req s = (Inl (UserForbiddenError ''Forbidden access to the video''), s))
       \<and> (userID video = user \<and> formData req = Inr form \<and>
            form ''video'' = Some (FormFile videoFile) \<and> type_File videoFile \<noteq> ''video/mp4'' \<longrightarrow>
            (\<exists>msg. h env cfg req s = (Inl (BadRequestError msg), s)))"
proof (intro conjI impI)
  assume "userID video \<noteq> user"
  from checks_forbidden [OF assms(2-6) this] assms(1)
  show "h env cfg req s = (Inl (UserForbiddenError ''Forbidden access to the video''), s)"
    by (auto dest: rejected_part_001 rejected_videos_ts)
next
  assume a: "userID video = user \<and> formData req = Inr form \<and>
            form ''video'' = Some (FormFile videoFile) \<and> type_File videoFile \<noteq> ''video/mp4''"
  with assms(5) have v: "validateJWT env token (jwtSecret cfg) = Inr (userID video)" by simp
  from a checks_file [OF assms(2-4) v assms(6), of form videoFile]
  obtain msg where "checks env cfg req s = (Inl (BadRequestError msg), s)"
    by (cases "2 ^ 30 < size_File videoFile") auto
  with assms(1) show "\<exists>msg. h env cfg req s = (Inl (BadRequestError msg), s)"
    by (auto dest: rejected_part_001 rejected_videos_ts)
qed

theorem rejected_before_staging_witness:
  "handlerUploadVideo_part_001 env_mallory cfg0 req0 s0 =
     (Inl (UserForbiddenError ''Forbidden access to the video''), s0)
   \<and> (\<exists>msg. handlerUploadVideo_videos_ts env0 cfg0 (req_with file_mov) s0 =
         (Inl (BadRequestError msg), s0))"
proof -
  have "handlerUploadVideo_part_001 env_mallory cfg0 req0 s0 =
     (Inl (UserForbiddenError ''Forbidden access to the video''), s0)"
    using rejected_before_staging [of handlerUploadVideo_part_001 req0 "''v1''" env_mallory
        "''t''" cfg0 "''mallory''" s0 video0 "[''video'' \<mapsto> FormFile file0]" file0]
    by (simp add: req0_def env_mallory_def env0_def s0_def video0_def)
  moreover have "\<exists>msg. handlerUploadVideo_videos_ts env0 cfg0 (req_with file_mov) s0 =
         (Inl (BadRequestError msg), s0)"
    using rejected_before_staging [of handlerUploadVideo_videos_ts "req_with file_mov" "''v1''"
        env0 "''t''" cfg0 "''alice''" s0 video0 "[''video'' \<mapsto> FormFile file_mov]" file_mov]
    by (simp add: req0_def req_with_def env0_def s0_def video0_def file_mov_def file0_def)
  ultimately show ?thesis by (rule conjI)
qed

text \<open>
  C6. With every other check passed, a file part of exactly \<open>2 ^ 30 + 1\<close> bytes is
  rejected with \<open>BadRequest\<close> and the state is untouched (no staging write), and an MP4
  file part of exactly \<open>2 ^ 30\<close> bytes goes on to staging: the first effect of the
  handler is the write to the temporary path.
\<close>

theorem one_gibibyte_limit:
  assumes hh: "h = handlerUploadVideo_part_001 \<or> h = handlerUploadVideo_videos_ts"
    and "params_videoId req = Some videoId" "videoId \<noteq> []"
    and "getBearerToken env (headers req) = Inr token"
    and "validateJWT env token (jwtSecret cfg) = Inr (userID video)"
    and "db s videoId = Some video"
    and "formData req = Inr form" "form ''video'' = Some (FormFile videoFile)"
  shows "(size_File videoFile = 2 ^ 30 + 1 \<longrightarrow>
            (\<exists>msg. h env cfg req s = (Inl (BadRequestError msg), s)))
       \<and> (size_File videoFile = 2 ^ 30 \<and> type_File videoFile = ''video/mp4'' \<longrightarrow>
            (\<exists>ok rest. new_events s (snd (h env cfg req s)) =
               Write (path_join ''/tmp'' (videoId @ ''.mp4'')) ok # rest))"
proof (intro conjI impI)
  note ck = checks_file [OF assms(2-8)]
  {
    assume "size_File videoFile = 2 ^ 30 + 1"
    with ck have "checks env cfg req s =
      (Inl (BadRequestError ''Video file exceeds the maximum allowed size of 1GB''), s)"
      by simp
    with hh show "\<exists>msg. h env cfg req s = (Inl (BadRequestError msg), s)"
      by (auto dest: rejected_part_001 rejected_videos_ts)
  next
    assume "size_File videoFile = 2 ^ 30 \<and> type_File videoFile = ''video/mp4''"
    with ck have c: "checks env cfg req s = (Inr (videoId, video, videoFile), s)" by simp
    from hh show "\<exists>ok rest. new_events s (snd (h env cfg req s)) =
               Write (path_join ''/tmp'' (videoId @ ''.mp4'')) ok # rest"
    proof
      assume h: "h = handlerUploadVideo_part_001"
      have "handlerUploadVideo_part_001 env cfg req s = (fst (h env cfg req s), snd (h env cfg req s))"
        by (simp add: h)
      from part_001_run [OF c this] show ?thesis
        by (elim disjE exE conjE) auto
    next
      assume h: "h = handlerUploadVideo_videos_ts"
      have "handlerUploadVideo_videos_ts env cfg req s = (fst (h env cfg req s), snd (h env cfg req s))"
        by (simp add: h)
      from videos_ts_run [OF c this] show ?thesis
        by (elim disjE exE conjE) auto
    qed
  }
qed

theorem one_gibibyte_limit_witness:
  "(\<exists>msg. handlerUploadVideo_part_001 env0 cfg0 (req_with file_1GiB_plus_1) s0 =
       (Inl (BadRequestError msg), s0))
   \<and> (\<exists>ok rest. new_events s0 (snd (handlerUploadVideo_part_001 env0 cfg0 (req_with file_1GiB) s0)) =
         Write ''/tmp/v1.mp4'' ok # rest)"
proof -
  have p: "path_join ''/tmp'' (''v1'' @ ''.mp4'') = ''/tmp/v1.mp4''"
    by (simp add: path_join_def path_normalize_def Let_def)
  have "\<exists>msg. handlerUploadVideo_part_001 env0 cfg0 (req_with file_1GiB_plus_1) s0 =
       (Inl (BadRequestError msg), s0)"
    using one_gibibyte_limit [of handlerUploadVideo_part_001 "req_with file_1GiB_plus_1" "''v1''"
        env0 "''t''" cfg0 video0 s0 "[''video'' \<mapsto> FormFile file_1GiB_plus_1]" file_1GiB_plus_1]
    by (simp add: req0_def req_with_def env0_def s0_def video0_def file_1GiB_plus_1_def file0_def)
  moreover have "\<exists>ok rest. new_events s0 (snd (handlerUploadVideo_part_001 env0 cfg0 (req_with file_1GiB) s0)) =
         Write ''/tmp/v1.mp4'' ok # rest"
    using one_gibibyte_limit [of handlerUploadVideo_part_001 "req_with file_1GiB" "''v1''"
        env0 "''t''" cfg0 video0 s0 "[''video'' \<mapsto> FormFile file_1GiB]" file_1GiB]
    unfolding p
    by (simp add: req0_def req_with_def env0_def s0_def video0_def file_1GiB_def file0_def)
  ultimately show ?thesis by (rule conjI)
qed

text \<open>
  C9. The record that a handler passes to the update operation of the record store is the
  record it fetched from the store, with the playback URL replaced: the identity, the
  owning user, the thumbnail URL and the descriptive fields are those of the fetched
  record.
\<close>

theorem update_changes_only_playback_url:
  assumes hh: "h = handlerUploadVideo_part_001 \<or> h = handlerUploadVideo_videos_ts"
    and run: "h env cfg req s = (r, s')"
    and ev: "Update v ok \<in> set (new_events s s')"
  shows "\<exists>videoId video. params_videoId req = Some videoId \<and> db s videoId = Some video \<and>
           v = video\<lparr>videoURL := videoURL v\<rparr> \<and>
           id_Video v = id_Video video \<and> userID v = userID video \<and>
           thumbnailURL v = thumbnailURL video \<and> Video.more v = Video.more video"
  using hh run
proof (cases rule: upload_handler_cases)
  case (rejected e)
  with ev show ?thesis by (simp add: new_events_same)
next
  case (ingest videoId video videoFile)
  note c = checks_Inr [OF ingest]
  have "\<exists>u. v = video\<lparr>videoURL := u\<rparr>"
    using hh
  proof
    assume "h = handlerUploadVideo_part_001"
    with run have "handlerUploadVideo_part_001 env cfg req s = (r, s')" by simp
    from part_001_run [OF ingest this] ev show ?thesis
      by (elim disjE exE conjE) auto
  next
    assume "h = handlerUploadVideo_videos_ts"
    with run have "handlerUploadVideo_videos_ts env cfg req s = (r, s')" by simp
    from videos_ts_run [OF ingest this] ev show ?thesis
      by (elim disjE exE conjE) auto
  qed
  then obtain u where "v = video\<lparr>videoURL := u\<rparr>" ..
  with c show ?thesis by simp
qed

theorem update_changes_only_playback_url_witness:
  "\<exists>videoId video. params_videoId req0 = Some videoId \<and> db s0 videoId = Some video \<and>
     video0\<lparr>videoURL := Some ''https://tubely.s3.us-east-2.amazonaws.com/landscape/v1.mp4''\<rparr> =
       video\<lparr>videoURL := Some ''https://tubely.s3.us-east-2.amazonaws.com/landscape/v1.mp4''\<rparr> \<and>
     id_Video video0 = id_Video video \<and> userID video0 = userID video \<and>
     thumbnailURL video0 = thumbnailURL video \<and> Video.more video0 = Video.more video"
  using update_changes_only_playback_url [of handlerUploadVideo_part_001 env0 cfg0 req0 s0
      "fst (handlerUploadVideo_part_001 env0 cfg0 req0 s0)"
      "snd (handlerUploadVideo_part_001 env0 cfg0 req0 s0)"
      "video0\<lparr>videoURL := Some ''https://tubely.s3.us-east-2.amazonaws.com/landscape/v1.mp4''\<rparr>"
      True]
  by (simp add: run0_events)

text \<open>
  C1. In every run of a handler, an update of the record store comes after an upload to
  the object store that has returned success, and the playback URL of the updated record
  is the URL of the uploaded key; a run without a successful upload leaves the record
  store as it was.
\<close>

theorem playback_url_only_after_upload:
  assumes hh: "h = handlerUploadVideo_part_001 \<or> h = handlerUploadVideo_videos_ts"
    and run: "h env cfg req s = (r, s')"
  shows "(\<forall>pre v ok post. new_events s s' = pre @ Update v ok # post \<longrightarrow>
            (\<exists>key path ct. Upload key path ct True \<in> set pre \<and>
               videoURL v = Some (s3_url cfg key)))
       \<and> ((\<forall>key path ct. Upload key path ct True \<notin> set (new_events s s')) \<longrightarrow> db s' = db s)"
  using hh run
proof (cases rule: upload_handler_cases)
  case (rejected e)
  then show ?thesis by (simp add: new_events_same)
next
  case (ingest videoId video videoFile)
  from hh show ?thesis
  proof
    assume "h = handlerUploadVideo_part_001"
    with run have "handlerUploadVideo_part_001 env cfg req s = (r, s')" by simp
    from part_001_run [OF ingest this] show ?thesis
      by (elim disjE exE conjE) (simp_all add: Cons_eq_append_conv)
  next
    assume "h = handlerUploadVideo_videos_ts"
    with run have "handlerUploadVideo_videos_ts env cfg req s = (r, s')" by simp
    from videos_ts_run [OF ingest this] show ?thesis
      by (elim disjE exE conjE) (simp_all add: Cons_eq_append_conv)
  qed
qed

theorem playback_url_only_after_upload_witness:
  "(\<exists>key path ct.
      Upload key path ct True \<in> set ([Write ''/tmp/v1.mp4'' True, Probe ''/tmp/v1.mp4'' True,
        Rewrite ''/tmp/v1.mp4'' ''/tmp/v1.processed.mp4'' True,
        Upload ''landscape/v1.mp4'' ''/tmp/v1.processed.mp4'' ''video/mp4'' True]
        :: unit event list) \<and>
      Some ''https://tubely.s3.us-east-2.amazonaws.com/landscape/v1.mp4'' = Some (s3_url cfg0 key))
   \<and> db (snd (handlerUploadVideo_part_001 env_s3_fails cfg0 req0 s0)) = db s0"
proof -
  let ?v = "video0\<lparr>videoURL := Some ''https://tubely.s3.us-east-2.amazonaws.com/landscape/v1.mp4''\<rparr>"
  let ?pre = "[Write ''/tmp/v1.mp4'' True, Probe ''/tmp/v1.mp4'' True,
        Rewrite ''/tmp/v1.mp4'' ''/tmp/v1.processed.mp4'' True,
        Upload ''landscape/v1.mp4'' ''/tmp/v1.processed.mp4'' ''video/mp4'' True]
        :: unit event list"
  have "new_events s0 (snd (handlerUploadVideo_part_001 env0 cfg0 req0 s0)) =
      ?pre @ Update ?v True # [Remove ''/tmp/v1.mp4'' True, Remove ''/tmp/v1.mp4.processed.mp4'' True]"
    by (simp add: run0_events)
  note e = this
  have "\<forall>pre v ok post.
      new_events s0 (snd (handlerUploadVideo_part_001 env0 cfg0 req0 s0)) = pre @ Update v ok # post \<longrightarrow>
      (\<exists>key path ct. Upload key path ct True \<in> set pre \<and> videoURL v = Some (s3_url cfg0 key))"
    using playback_url_only_after_upload [OF disjI1 [OF refl] prod.collapse [symmetric],
        where env = env0 and cfg = cfg0 and req = req0 and s = s0]
    by (rule conjunct1)
  from this [rule_format, OF e]
  have "\<exists>key path ct. Upload key path ct True \<in> set ?pre \<and> videoURL ?v = Some (s3_url cfg0 key)" .
  then have 1: "\<exists>key path ct. Upload key path ct True \<in> set ?pre \<and>
     Some ''https://tubely.s3.us-east-2.amazonaws.com/landscape/v1.mp4'' = Some (s3_url cfg0 key)"
    by simp
  have "(\<forall>key path ct. Upload key path ct True \<notin>
            set (new_events s0 (snd (handlerUploadVideo_part_001 env_s3_fails cfg0 req0 s0)))) \<longrightarrow>
        db (snd (handlerUploadVideo_part_001 env_s3_fails cfg0 req0 s0)) = db s0"
    using playback_url_only_after_upload [OF disjI1 [OF refl] prod.collapse [symmetric],
        where env = env_s3_fails and cfg = cfg0 and req = req0 and s = s0]
    by (rule conjunct2)
  then have 2: "db (snd (handlerUploadVideo_part_001 env_s3_fails cfg0 req0 s0)) = db s0"
    by (simp add: run0_s3_fails(1))
  from 1 2 show ?thesis by (rule conjI)
qed



text \<open>
  C3, as stated: after every terminal outcome the temporary files of the request have been
  removed. It fails when the probe fails: the handler of \<open>part_001\<close> returns the error
  at once, issues no removal, and the staged file is still there.
\<close>

theorem staged_file_left_after_probe_failure:
  "fst (handlerUploadVideo_part_001 env_probe_fails cfg0 req0 s0) =
     Inl (Error ''ffprobe error: moov atom not found'')
   \<and> new_events s0 (snd (handlerUploadVideo_part_001 env_probe_fails cfg0 req0 s0)) =
       [Write ''/tmp/v1.mp4'' True, Probe ''/tmp/v1.mp4'' False]
   \<and> fs (snd (handlerUploadVideo_part_001 env_probe_fails cfg0 req0 s0)) ''/tmp/v1.mp4'' =
       Some [1, 2, 3]"
  by (simp add: run0_probe_fails)

text \<open>
  C3, amended. The handlers remove temporary files only at the end of the successful path.
  Once the update of the record store has succeeded, the removal of the staged file is
  issued before the handler returns, and the staged file is gone when that removal
  succeeds; a run that does not reach a successful update issues no removal at all.
\<close>

theorem cleanup_only_after_commit:
  assumes hh: "h = handlerUploadVideo_part_001 \<or> h = handlerUploadVideo_videos_ts"
    and run: "h env cfg req s = (r, s')"
    and vid: "params_videoId req = Some videoId"
  shows "((\<exists>v. Update v True \<in> set (new_events s s')) \<longrightarrow>
            Remove (path_join ''/tmp'' (videoId @ ''.mp4''))
              (rm_fails env (path_join ''/tmp'' (videoId @ ''.mp4'')) = None)
              \<in> set (new_events s s') \<and>
            (rm_fails env (path_join ''/tmp'' (videoId @ ''.mp4'')) = None \<longrightarrow>
               fs s' (path_join ''/tmp'' (videoId @ ''.mp4'')) = None))
       \<and> ((\<forall>v. Update v True \<notin> set (new_events s s')) \<longrightarrow>
            filter is_Remove (new_events s s') = [])"
  using hh run
proof (cases rule: upload_handler_cases)
  case (rejected e)
  then show ?thesis by (simp add: new_events_same)
next
  case (ingest videoId' video videoFile)
  from checks_Inr [OF ingest] vid have v: "videoId' = videoId" by simp
  from hh show ?thesis
  proof
    assume "h = handlerUploadVideo_part_001"
    with run have "handlerUploadVideo_part_001 env cfg req s = (r, s')" by simp
    from part_001_run [OF ingest this] show ?thesis unfolding v
      by (elim disjE exE conjE) simp_all
  next
    assume "h = handlerUploadVideo_videos_ts"
    with run have "handlerUploadVideo_videos_ts env cfg req s = (r, s')" by simp
    from videos_ts_run [OF ingest this] show ?thesis unfolding v
      by (elim disjE exE conjE) simp_all
  qed
qed

theorem cleanup_only_after_commit_witness:
  "Remove ''/tmp/v1.mp4'' True \<in> set (new_events s0 (snd (handlerUploadVideo_part_001 env0 cfg0 req0 s0)))
   \<and> fs (snd (handlerUploadVideo_part_001 env0 cfg0 req0 s0)) ''/tmp/v1.mp4'' = None
   \<and> filter is_Remove (new_events s0 (snd (handlerUploadVideo_part_001 env_probe_fails cfg0 req0 s0))) = []"
proof -
  have vid: "params_videoId req0 = Some ''v1''" by (simp add: req0_def)
  have rmf: "rm_fails env0 p = None" for p by (simp add: env0_def)
  from cleanup_only_after_commit [OF disjI1 [OF refl] prod.collapse [symmetric] vid,
      where env = env0 and cfg = cfg0 and s = s0]
  have a: "Remove ''/tmp/v1.mp4'' True \<in> set (new_events s0 (snd (handlerUploadVideo_part_001 env0 cfg0 req0 s0)))
   \<and> fs (snd (handlerUploadVideo_part_001 env0 cfg0 req0 s0)) ''/tmp/v1.mp4'' = None"
    unfolding path0 rmf by (simp add: run0_events)
  from cleanup_only_after_commit [OF disjI1 [OF refl] prod.collapse [symmetric] vid,
      where env = env_probe_fails and cfg = cfg0 and s = s0]
  have b: "filter is_Remove (new_events s0 (snd (handlerUploadVideo_part_001 env_probe_fails cfg0 req0 s0))) = []"
    by (simp add: run0_probe_fails(1))
  from a b show ?thesis by simp
qed

text \<open>
  C7, as stated: every ingestion goes through Staged, Probed, Rewritten, Uploaded and
  Committed. It fails for the handler of \<open>videos.ts\<close>, which has no probe and no rewrite:
  a successful request goes through Staged, Uploaded and Committed only.
\<close>

theorem videos_ts_skips_probe_and_rewrite:
  "\<not> isl (fst (handlerUploadVideo_videos_ts env0 cfg0 req0 s0))
   \<and> stages (new_events s0 (snd (handlerUploadVideo_videos_ts env0 cfg0 req0 s0))) =
       [Staged, Uploaded, Committed]"
  by (simp add: run0_videos_ts_result run0_videos_ts_events stages_def map_filter_simps)

text \<open>
  C7, amended. The successful effects of a request of \<open>part_001\<close> are an initial segment
  of Staged, Probed, Rewritten, Uploaded, Committed, and the whole of it when the handler
  returns a response; those of \<open>videos.ts\<close> are an initial segment of Staged, Uploaded,
  Committed. Each stage works on the artifact of an earlier one: the probe and the rewriter
  read the staged file, the upload reads the output of the rewriter (in \<open>videos.ts\<close> the
  staged file), and the committed URL is that of the uploaded key. Only the last effect of
  a request can be a failed call: a failure ends the pipeline.
\<close>

theorem pipeline_order:
  "(handlerUploadVideo_part_001 env cfg req s = (r, s') \<longrightarrow>
      prefix (stages (new_events s s')) [Staged, Probed, Rewritten, Uploaded, Committed] \<and>
      (\<not> isl r \<longrightarrow>
         stages (new_events s s') = [Staged, Probed, Rewritten, Uploaded, Committed]) \<and>
      (\<forall>p ok. Probe p ok \<in> set (new_events s s') \<longrightarrow>
         Write p True \<in> set (new_events s s')) \<and>
      (\<forall>p out ok. Rewrite p out ok \<in> set (new_events s s') \<longrightarrow>
         Write p True \<in> set (new_events s s')) \<and>
      (\<forall>key p ct ok. Upload key p ct ok \<in> set (new_events s s') \<longrightarrow>
         (\<exists>inp. Rewrite inp p True \<in> set (new_events s s'))) \<and>
      (\<forall>v ok. Update v ok \<in> set (new_events s s') \<longrightarrow>
         (\<exists>key p ct. Upload key p ct True \<in> set (new_events s s') \<and>
            videoURL v = Some (s3_url cfg key))) \<and>
      (\<forall>ev \<in> set (butlast (new_events s s')). \<not> failed ev))
   \<and> (handlerUploadVideo_videos_ts env cfg req s = (r, s') \<longrightarrow>
      prefix (stages (new_events s s')) [Staged, Uploaded, Committed] \<and>
      (\<not> isl r \<longrightarrow> stages (new_events s s') = [Staged, Uploaded, Committed]) \<and>
      (\<forall>key p ct ok. Upload key p ct ok \<in> set (new_events s s') \<longrightarrow>
         Write p True \<in> set (new_events s s')) \<and>
      (\<forall>v ok. Update v ok \<in> set (new_events s s') \<longrightarrow>
         (\<exists>key p ct. Upload key p ct True \<in> set (new_events s s') \<and>
            videoURL v = Some (s3_url cfg key))) \<and>
      (\<forall>ev \<in> set (butlast (new_events s s')). \<not> failed ev))"
proof (intro conjI impI)
  assume run: "handlerUploadVideo_part_001 env cfg req s = (r, s')"
  have "prefix (stages (new_events s s')) [Staged, Probed, Rewritten, Uploaded, Committed] \<and>
      (\<not> isl r \<longrightarrow>
         stages (new_events s s') = [Staged, Probed, Rewritten, Uploaded, Committed]) \<and>
      (\<forall>p ok. Probe p ok \<in> set (new_events s s') \<longrightarrow>
         Write p True \<in> set (new_events s s')) \<and>
      (\<forall>p out ok. Rewrite p out ok \<in> set (new_events s s') \<longrightarrow>
         Write p True \<in> set (new_events s s')) \<and>
      (\<forall>key p ct ok. Upload key p ct ok \<in> set (new_events s s') \<longrightarrow>
         (\<exists>inp. Rewrite inp p True \<in> set (new_events s s'))) \<and>
      (\<forall>v ok. Update v ok \<in> set (new_events s s') \<longrightarrow>
         (\<exists>key p ct. Upload key p ct True \<in> set (new_events s s') \<and>
            videoURL v = Some (s3_url cfg key))) \<and>
      (\<forall>ev \<in> set (butlast (new_events s s')). \<not> failed ev)"
    using disjI1 [OF refl] run
  proof (cases rule: upload_handler_cases)
    case (rejected e)
    then show ?thesis by (simp add: new_events_same stages_def map_filter_simps)
  next
    case (ingest videoId video videoFile)
    from part_001_run [OF ingest run] show ?thesis
      by (elim disjE exE conjE) (auto simp add: stages_def map_filter_simps)
  qed
  then show "prefix (stages (new_events s s')) [Staged, Probed, Rewritten, Uploaded, Committed]"
    and "\<not> isl r \<Longrightarrow>
         stages (new_events s s') = [Staged, Probed, Rewritten, Uploaded, Committed]"
    and "\<forall>p ok. Probe p ok \<in> set (new_events s s') \<longrightarrow>
         Write p True \<in> set (new_events s s')"
    and "\<forall>p out ok. Rewrite p out ok \<in> set (new_events s s') \<longrightarrow>
         Write p True \<in> set (new_events s s')"
    and "\<forall>key p ct ok. Upload key p ct ok \<in> set (new_events s s') \<longrightarrow>
         (\<exists>inp. Rewrite inp p True \<in> set (new_events s s'))"
    and "\<forall>v ok. Update v ok \<in> set (new_events s s') \<longrightarrow>
         (\<exists>key p ct. Upload key p ct True \<in> set (new_events s s') \<and>
            videoURL v = Some (s3_url cfg key))"
    and "\<forall>ev \<in> set (butlast (new_events s s')). \<not> failed ev"
    by blast+
next
  assume run: "handlerUploadVideo_videos_ts env cfg req s = (r, s')"
  have "prefix (stages (new_events s s')) [Staged, Uploaded, Committed] \<and>
      (\<not> isl r \<longrightarrow> stages (new_events s s') = [Staged, Uploaded, Committed]) \<and>
      (\<forall>key p ct ok. Upload key p ct ok \<in> set (new_events s s') \<longrightarrow>
         Write p True \<in> set (new_events s s')) \<and>
      (\<forall>v ok. Update v ok \<in> set (new_events s s') \<longrightarrow>
         (\<exists>key p ct. Upload key p ct True \<in> set (new_events s s') \<and>
            videoURL v = Some (s3_url cfg key))) \<and>
      (\<forall>ev \<in> set (butlast (new_events s s')). \<not> failed ev)"
    using disjI2 [OF refl] run
  proof (cases rule: upload_handler_cases)
    case (rejected e)
    then show ?thesis by (simp add: new_events_same stages_def map_filter_simps)
  next
    case (ingest videoId video videoFile)
    from videos_ts_run [OF ingest run] show ?thesis
      by (elim disjE exE conjE) (auto simp add: stages_def map_filter_simps)
  qed
  then show "prefix (stages (new_events s s')) [Staged, Uploaded, Committed]"
    and "\<not> isl r \<Longrightarrow> stages (new_events s s') = [Staged, Uploaded, Committed]"
    and "\<forall>key p ct ok. Upload key p ct ok \<in> set (new_events s s') \<longrightarrow>
         Write p True \<in> set (new_events s s')"
    and "\<forall>v ok. Update v ok \<in> set (new_events s s') \<longrightarrow>
         (\<exists>key p ct. Upload key p ct True \<in> set (new_events s s') \<and>
            videoURL v = Some (s3_url cfg key))"
    and "\<forall>ev \<in> set (butlast (new_events s s')). \<not> failed ev"
    by blast+
qed

theorem pipeline_order_witness:
  "stages (new_events s0 (snd (handlerUploadVideo_part_001 env0 cfg0 req0 s0))) =
     [Staged, Probed, Rewritten, Uploaded, Committed]
   \<and> stages (new_events s0 (snd (handlerUploadVideo_videos_ts env0 cfg0 req0 s0))) =
     [Staged, Uploaded, Committed]"
proof -
  have r1: "handlerUploadVideo_part_001 env0 cfg0 req0 s0 =
      (fst (handlerUploadVideo_part_001 env0 cfg0 req0 s0),
       snd (handlerUploadVideo_part_001 env0 cfg0 req0 s0))"
    by simp
  have r2: "handlerUploadVideo_videos_ts env0 cfg0 req0 s0 =
      (fst (handlerUploadVideo_videos_ts env0 cfg0 req0 s0),
       snd (handlerUploadVideo_videos_ts env0 cfg0 req0 s0))"
    by simp
  have n1: "\<not> isl (fst (handlerUploadVideo_part_001 env0 cfg0 req0 s0))"
    by (simp add: run0_result)
  from pipeline_order [THEN conjunct1, rule_format, OF r1] n1
  have a: "stages (new_events s0 (snd (handlerUploadVideo_part_001 env0 cfg0 req0 s0))) =
     [Staged, Probed, Rewritten, Uploaded, Committed]"
    by blast
  from pipeline_order [THEN conjunct2, rule_format, OF r2] run0_videos_ts_result
  have b: "stages (new_events s0 (snd (handlerUploadVideo_videos_ts env0 cfg0 req0 s0))) =
     [Staged, Uploaded, Committed]"
    by blast
  from a b show ?thesis by (rule conjI)
qed

text \<open>
  C4. The output path of the rewriter is a function of its input path: the input path up
  to its first dot, followed by \<open>.processed.mp4\<close>. The second path that the handler of
  \<open>part_001\<close> removes is the whole staged path followed by \<open>.processed.mp4\<close>; for
  every video identity it differs from the path the rewriter wrote to.
\<close>

theorem cleanup_path_differs_from_rewriter_output:
  "outputFilePath_of p = takeWhile (\<lambda>c. c \<noteq> CHR ''.'') p @ ''.processed.mp4''
   \<and> path_join ''/tmp'' (videoId @ ''.mp4'') @ ''.processed.mp4'' \<noteq>
       outputFilePath_of (path_join ''/tmp'' (videoId @ ''.mp4''))"
proof
  show "outputFilePath_of p = takeWhile (\<lambda>c. c \<noteq> CHR ''.'') p @ ''.processed.mp4''"
    by (rule outputFilePath_of_eq)
next
  define q where "q = path_join ''/tmp'' (videoId @ ''.mp4'')"
  have "length (takeWhile (\<lambda>c. c \<noteq> CHR ''.'') q) < length q"
    unfolding q_def by (rule takeWhile_shorter [OF staged_path_has_dot])
  then have neq: "length (q @ ''.processed.mp4'') \<noteq> length (outputFilePath_of q)"
    unfolding outputFilePath_of_eq by simp
  have "q @ ''.processed.mp4'' \<noteq> outputFilePath_of q"
  proof
    assume "q @ ''.processed.mp4'' = outputFilePath_of q"
    then have "length (q @ ''.processed.mp4'') = length (outputFilePath_of q)"
      by (rule arg_cong)
    with neq show False by contradiction
  qed
  then show "path_join ''/tmp'' (videoId @ ''.mp4'') @ ''.processed.mp4'' \<noteq>
       outputFilePath_of (path_join ''/tmp'' (videoId @ ''.mp4''))"
    unfolding q_def .
qed

text \<open>
  C10. When the probe has exited with status 0 and its report has a first stream with
  numeric width and height, \<open>getVideoAspectRatio\<close> returns a classification and no
  error. When the height is zero (of either sign), the ratio is NaN or an infinity, neither
  tolerance comparison holds, and the classification is \<open>other\<close>.
\<close>

theorem classification_total:
  assumes "probe_exited (ffprobe env p (fs s p)) = 0"
    and "JSON_parse env (probe_stdoutText (ffprobe env p (fs s p))) = Inr output"
    and "streams output = Some (st # rest)"
  shows "fst (getVideoAspectRatio env p s) = Inr (classify (width st) (height st))
       \<and> (js_is_zero (height st) \<longrightarrow>
            js_div (width st) (height st) \<in> {NaN, PosInf, NegInf} \<and>
            \<not> js_lt (js_abs (js_sub (js_div (width st) (height st)) (js_div (Num 16) (Num 9))))
                  lit_0_1 \<and>
            \<not> js_lt (js_abs (js_sub (js_div (width st) (height st)) (js_div (Num 9) (Num 16))))
                  lit_0_1 \<and>
            classify (width st) (height st) = Other)"
proof (intro conjI impI)
  show "fst (getVideoAspectRatio env p s) = Inr (classify (width st) (height st))"
    using assms by (simp add: getVideoAspectRatio_def Let_def)
next
  assume z: "js_is_zero (height st)"
  note nf = js_div_by_zero [OF z, of "width st"]
  then show "js_div (width st) (height st) \<in> {NaN, PosInf, NegInf}" by auto
  show a: "\<not> js_lt (js_abs (js_sub (js_div (width st) (height st)) (js_div (Num 16) (Num 9))))
                  lit_0_1"
    unfolding sixteen_ninths by (rule non_finite_not_within [OF nf])
  show b: "\<not> js_lt (js_abs (js_sub (js_div (width st) (height st)) (js_div (Num 9) (Num 16))))
                  lit_0_1"
    unfolding nine_sixteenths by (rule non_finite_not_within [OF nf])
  from a b show "classify (width st) (height st) = Other"
    by (simp add: classify_def Let_def)
qed

theorem classification_total_witness:
  "fst (getVideoAspectRatio env_zero_height ''/tmp/v1.mp4'' s0) = Inr Other
   \<and> js_div (Num 1920) (Num 0) \<in> {NaN, PosInf, NegInf}
   \<and> classify (Num 1920) (Num 0) = Other"
  using classification_total [of env_zero_height "''/tmp/v1.mp4''" s0
      "\<lparr>streams = Some [\<lparr>width = Num 1920, height = Num 0\<rparr>]\<rparr>"
      "\<lparr>width = Num 1920, height = Num 0\<rparr>" "[]"]
  by (simp add: env_zero_height_def env0_def)

text \<open>
  C2, as stated: the classification is the rule of the specification, with strict
  comparisons, so that a ratio exactly 0.1 away from 16/9 is \<open>other\<close>. It fails for a
  video of 151 by 90 pixels (or 1510 by 900): the ratio is exactly 0.1 below 16/9, and the
  rule of the specification gives \<open>other\<close>, but in binary64 arithmetic the computed
  distance is just below the binary64 value of 0.1 and the code returns \<open>landscape\<close>.
\<close>

theorem boundary_ratio_151_90_is_landscape:
  "\<bar>(151 :: rat) / 90 - 16 / 9\<bar> = 1 / 10
   \<and> spec_classify 151 90 = Other
   \<and> classify (Num 151) (Num 90) = Landscape"
  by (simp add: spec_classify_boundaries classify_151_90)

text \<open>
  C2, amended. For every natural width and every positive height below \<open>2 ^ 31\<close>, the
  classification that the code computes in binary64 arithmetic is the rule of the
  specification on the exact ratio, except at three ratios that lie exactly on a
  boundary: 151/90 is \<open>landscape\<close>, and 53/80 and 37/80 are \<open>portrait\<close>. (The fourth
  boundary, 169/90, is \<open>other\<close>, as the rule says.)
\<close>

theorem classify_integer_dimensions:
  fixes w h :: nat
  assumes h: "0 < h" "h < 2 ^ 31"
  shows "classify (Num (of_nat w)) (Num (of_nat h)) =
     (if (of_nat w / of_nat h :: rat) = 151 / 90 then Landscape
      else if (of_nat w / of_nat h :: rat) = 53 / 80 \<or> (of_nat w / of_nat h :: rat) = 37 / 80
        then Portrait
      else spec_classify (of_nat w) (of_nat h))"
proof -
  define q :: rat where "q = of_nat w / of_nat h"
  define r where "r = rnd q"
  have q0: "0 \<le> q" by (simp add: q_def)
  have land: "(\<bar>q - 16 / 9\<bar> < 1 / 10) = (151 / 90 < q \<and> q < 169 / 90)"
  proof
    assume "\<bar>q - 16 / 9\<bar> < 1 / 10"
    then show "151 / 90 < q \<and> q < 169 / 90" by (intro conjI) linarith+
  next
    assume "151 / 90 < q \<and> q < 169 / 90"
    then have "151 / 90 < q" "q < 169 / 90" by simp_all
    then show "\<bar>q - 16 / 9\<bar> < 1 / 10" by linarith
  qed
  have port: "(\<bar>q - 9 / 16\<bar> < 1 / 10) = (37 / 80 < q \<and> q < 53 / 80)"
  proof
    assume "\<bar>q - 9 / 16\<bar> < 1 / 10"
    then show "37 / 80 < q \<and> q < 53 / 80" by (intro conjI) linarith+
  next
    assume "37 / 80 < q \<and> q < 53 / 80"
    then have "37 / 80 < q" "q < 53 / 80" by simp_all
    then show "\<bar>q - 9 / 16\<bar> < 1 / 10" by linarith
  qed
  have spec: "spec_classify (of_nat w) (of_nat h) =
      (if 151 / 90 < q \<and> q < 169 / 90 then Landscape
       else if 37 / 80 < q \<and> q < 53 / 80 then Portrait else Other)"
    unfolding spec_classify_def q_def [symmetric] land port ..
  note div = js_div_nat [OF h(1), of w, folded q_def]
  have finite: "js_div (Num (of_nat w)) (Num (of_nat h)) = Num r \<and> 0 \<le> r \<and> r \<le> rnd b"
    if "q \<le> b" "rnd b < 2" for b
  proof (cases "w = 0")
    case True
    then have "q = 0" by (simp add: q_def)
    then have "r = 0" by (simp add: r_def rnd_def round_half_even_def)
    moreover have "0 \<le> rnd b" using that(1) q0 by (intro rnd_nonneg) simp
    ultimately show ?thesis using True div by simp
  next
    case False
    then have qpos: "0 < q" using h(1) by (simp add: q_def)
    from rnd_mono [OF qpos that(1)] have le: "r \<le> rnd b" by (simp add: r_def)
    with that(2) have "r < 2" by simp
    then have "r < 2 powi 1024" by (rule powi_1024_big)
    with False div le rnd_nonneg [OF q0] show ?thesis by (simp add: r_def)
  qed
  have lower: "rnd b \<le> r" if "0 < b" "b \<le> q" for b
    using rnd_mono [OF that] by (simp add: r_def)
  consider (above) "169 / 90 \<le> q"
    | (landscape) "151 / 90 \<le> q" "q < 169 / 90"
    | (middle) "53 / 80 < q" "q < 151 / 90"
    | (portrait) "37 / 80 \<le> q" "q \<le> 53 / 80"
    | (below) "q < 37 / 80"
    by linarith
  then show ?thesis
  proof cases
    case above
    then have rhs: "spec_classify (of_nat w) (of_nat h) = Other"
      unfolding spec by simp
    have w: "w \<noteq> 0"
    proof
      assume "w = 0"
      then have "q = 0" by (simp add: q_def)
      with above show False by simp
    qed
    have lo: "4228379650142299 / 2251799813685248 \<le> r"
      using lower [of "169 / 90"] above by (simp add: rnd_checkpoints)
    have "classify (Num (of_nat w)) (Num (of_nat h)) = Other"
    proof (cases "2 powi 1024 \<le> rnd q")
      case True
      with div w have "js_div (Num (of_nat w)) (Num (of_nat h)) = PosInf" by simp
      then show ?thesis by (rule classify_overflow)
    next
      case False
      with div w have "js_div (Num (of_nat w)) (Num (of_nat h)) = Num r"
        by (simp add: r_def)
      from classify_finite [OF this] above_bands [OF lo] show ?thesis by simp
    qed
    with rhs above show ?thesis unfolding q_def [symmetric] by simp
  next
    case landscape
    have "(of_nat w / of_nat h :: rat) < of_nat 169 / of_nat 90"
      using landscape(2) by (simp add: q_def)
    from margin_below [OF h _ this] have "q \<le> 362924736511 / 193273528320"
      by (simp add: q_def)
    from finite [OF this] have f: "js_div (Num (of_nat w)) (Num (of_nat h)) = Num r"
      and hi: "r \<le> 528547456266331 / 281474976710656"
      by (simp_all add: rnd_checkpoints)
    have lo: "7556039374810499 / 4503599627370496 \<le> r"
      using lower [of "151 / 90"] landscape(1) by (simp add: rnd_checkpoints)
    from classify_finite [OF f] landscape_band [OF lo hi]
    have "classify (Num (of_nat w)) (Num (of_nat h)) = Landscape" by simp
    moreover have "q \<noteq> 151 / 90 \<Longrightarrow> spec_classify (of_nat w) (of_nat h) = Landscape"
      unfolding spec using landscape by simp
    ultimately show ?thesis unfolding q_def [symmetric] using landscape by simp
  next
    case middle
    have "(of_nat w / of_nat h :: rat) < of_nat 151 / of_nat 90"
      using middle(2) by (simp add: q_def)
    from margin_below [OF h _ this] have "q \<le> 324270030847 / 193273528320"
      by (simp add: q_def)
    from finite [OF this] have f: "js_div (Num (of_nat w)) (Num (of_nat h)) = Num r"
      and hi: "r \<le> 7556039374787197 / 4503599627370496"
      by (simp_all add: rnd_checkpoints)
    have "(of_nat 53 / of_nat 80 :: rat) < of_nat w / of_nat h"
      using middle(1) by (simp add: q_def)
    from margin_above [OF h _ this] have "22763326669 / 34359738368 \<le> q"
      by (simp add: q_def)
    from lower [OF _ this] have lo: "22763326669 / 34359738368 \<le> r"
      by (simp add: rnd_checkpoints)
    from classify_finite [OF f] middle_band [OF lo hi]
    have "classify (Num (of_nat w)) (Num (of_nat h)) = Other" by simp
    moreover have "spec_classify (of_nat w) (of_nat h) = Other"
      unfolding spec using middle by simp
    ultimately show ?thesis unfolding q_def [symmetric] using middle by simp
  next
    case portrait
    have "q \<le> 53 / 80" by (rule portrait(2))
    from finite [OF this] have f: "js_div (Num (of_nat w)) (Num (of_nat h)) = Num r"
      and hi: "r \<le> 5967269506265907 / 9007199254740992"
      by (simp_all add: rnd_checkpoints)
    have lo: "4165829655317709 / 9007199254740992 \<le> r"
      using lower [of "37 / 80"] portrait(1) by (simp add: rnd_checkpoints)
    from classify_finite [OF f] portrait_band [OF lo hi]
    have "classify (Num (of_nat w)) (Num (of_nat h)) = Portrait" by simp
    moreover have "q \<noteq> 53 / 80 \<Longrightarrow> q \<noteq> 37 / 80 \<Longrightarrow>
        spec_classify (of_nat w) (of_nat h) = Portrait"
      unfolding spec using portrait by simp
    ultimately show ?thesis unfolding q_def [symmetric] using portrait by simp
  next
    case below
    have "(of_nat w / of_nat h :: rat) < of_nat 37 / of_nat 80"
      using below by (simp add: q_def)
    from margin_below [OF h _ this] have "q \<le> 15891378995 / 34359738368"
      by (simp add: q_def)
    from finite [OF this] have f: "js_div (Num (of_nat w)) (Num (of_nat h)) = Num r"
      and lo: "0 \<le> r" and hi: "r \<le> 15891378995 / 34359738368"
      by (simp_all add: rnd_checkpoints)
    from classify_finite [OF f] below_bands [OF lo hi]
    have "classify (Num (of_nat w)) (Num (of_nat h)) = Other" by simp
    moreover have "spec_classify (of_nat w) (of_nat h) = Other"
      unfolding spec using below by simp
    ultimately show ?thesis unfolding q_def [symmetric] using below by simp
  qed
qed

theorem classify_integer_dimensions_witness:
  "(0 :: nat) < 1080 \<and> (1080 :: nat) < 2 ^ 31
   \<and> classify (Num 1920) (Num 1080) = Landscape
   \<and> classify (Num 169) (Num 90) = Other"
  using classify_integer_dimensions [of 1080 1920] classify_integer_dimensions [of 90 169]
  by (simp add: spec_classify_def)

end
